theory Spec2Isabelle
  imports Complex_Main "HOL-Library.Word" "HOL-Library.Product_Lexorder"
begin

section \<open>Four-axis milling: the data model\<close>

text \<open>
  The C++ sources work on \<^verbatim>\<open>double\<close> coordinates. They are modelled as \<^typ>\<open>real\<close>:
  rounding is not modelled, and a computation whose floating-point result would be a
  NaN (a division by an empty neighbourhood size) is an explicit error of the model.
  Every indexed read and write of the source is checked in the model: an index out of
  range is the error \<open>OutOfBounds\<close> (undefined behaviour in C++), and a failing
  \<^verbatim>\<open>std::vector::at\<close> is the error \<open>OutOfRange\<close> (the exception it throws).
  A failing \<^verbatim>\<open>assert\<close> is the error \<open>AssertionFailed\<close>; assertions are compiled in
  only when the flag \<open>asserts\<close> of a function is set (a build without \<^verbatim>\<open>NDEBUG\<close>).
  The comparators of the two sorts read the mesh unchecked, as said where they are
  defined.
\<close>

datatype error = OutOfBounds | OutOfRange | AssertionFailed | NotFinite | NotSupported

definition ebind :: "error + 'a \<Rightarrow> ('a \<Rightarrow> error + 'b) \<Rightarrow> error + 'b" where
  "ebind r f = (case r of Inl e \<Rightarrow> Inl e | Inr v \<Rightarrow> f v)"

definition vectorAt :: "'a list \<Rightarrow> nat \<Rightarrow> error + 'a" where
  "vectorAt xs i = (if i < length xs then Inr (xs ! i) else Inl OutOfRange)"

definition idx :: "'a list \<Rightarrow> nat \<Rightarrow> error + 'a" where
  "idx xs i = (if i < length xs then Inr (xs ! i) else Inl OutOfBounds)"

type_synonym vec3 = "real \<times> real \<times> real"

fun vadd :: "vec3 \<Rightarrow> vec3 \<Rightarrow> vec3" where
  "vadd (a, b, c) (d, e, f) = (a + d, b + e, c + f)"

fun vsub :: "vec3 \<Rightarrow> vec3 \<Rightarrow> vec3" where
  "vsub (a, b, c) (d, e, f) = (a - d, b - e, c - f)"

fun vscale :: "real \<Rightarrow> vec3 \<Rightarrow> vec3" where
  "vscale k (a, b, c) = (k * a, k * b, k * c)"

fun vdiv :: "vec3 \<Rightarrow> real \<Rightarrow> vec3" where
  "vdiv (a, b, c) k = (a / k, b / k, c / k)"

fun vdot :: "vec3 \<Rightarrow> vec3 \<Rightarrow> real" where
  "vdot (a, b, c) (d, e, f) = a * d + b * e + c * f"

fun vz :: "vec3 \<Rightarrow> real" where
  "vz (a, b, c) = c"

text \<open>
  \<^verbatim>\<open>cg3::EigenMesh\<close>: the vertex matrix, the face matrix (three vertex indices a
  face), the stored face normals and the z-range of the stored bounding box.
\<close>

record eigenMesh =
  vertices :: "vec3 list"
  faces :: "(nat \<times> nat \<times> nat) list"
  faceNormals :: "vec3 list"
  bbMinZ :: real
  bbMaxZ :: real

definition getNumberVertices :: "eigenMesh \<Rightarrow> nat" where
  "getNumberVertices m = length (vertices m)"

definition getNumberFaces :: "eigenMesh \<Rightarrow> nat" where
  "getNumberFaces m = length (faces m)"

definition getVertex :: "eigenMesh \<Rightarrow> nat \<Rightarrow> error + vec3" where
  "getVertex m i = idx (vertices m) i"

definition getFace :: "eigenMesh \<Rightarrow> nat \<Rightarrow> error + (nat \<times> nat \<times> nat)" where
  "getFace m i = idx (faces m) i"

definition setVertex :: "eigenMesh \<Rightarrow> nat \<Rightarrow> vec3 \<Rightarrow> eigenMesh" where
  "setVertex m i p = m\<lparr>vertices := (vertices m)[i := p]\<rparr>"

text \<open>
  \<^verbatim>\<open>cg3::Array2D<int>\<close>: \<open>sizeX\<close> rows (directions) of \<open>sizeY\<close> entries (faces).
\<close>

record array2d =
  sizeX :: nat
  sizeY :: nat
  cells :: "nat \<Rightarrow> nat \<Rightarrow> int"

definition newArray2d :: "nat \<Rightarrow> nat \<Rightarrow> array2d" where
  "newArray2d n m = \<lparr>sizeX = n, sizeY = m, cells = (\<lambda>i j. 0)\<rparr>"

definition aget :: "array2d \<Rightarrow> nat \<Rightarrow> nat \<Rightarrow> error + int" where
  "aget a i j = (if i < sizeX a \<and> j < sizeY a then Inr (cells a i j) else Inl OutOfBounds)"

definition aset :: "array2d \<Rightarrow> nat \<Rightarrow> nat \<Rightarrow> int \<Rightarrow> error + array2d" where
  "aset a i j v =
     (if i < sizeX a \<and> j < sizeY a
      then Inr (a\<lparr>cells := (cells a)(i := (cells a i)(j := v))\<rparr>)
      else Inl OutOfBounds)"

text \<open>The fields of \<^verbatim>\<open>FourAxisFabrication::Data\<close> that the modelled functions use.\<close>

record data =
  minExtremes :: "nat list"
  maxExtremes :: "nat list"
  directions :: "vec3 list"
  angles :: "real list"
  visibility :: array2d
  nonVisibleFaces :: "nat list"
  association :: "int list"
  restoredMesh :: eigenMesh
  restoredMeshAssociation :: "int list"
  restoredMeshNonVisibleFaces :: "nat list"
  restoredMeshVisibility :: array2d

section \<open>Frequency restoration\<close>

definition BINARY_SEARCH_ITERATIONS :: nat where
  "BINARY_SEARCH_ITERATIONS = 10"

text \<open>
  \<^verbatim>\<open>internal::getTargetPoint\<close>: the loop summing the neighbours, the division by
  their number, and the checked read of the differential coordinate, which throws
  before a sum divided by zero is used.
\<close>

fun sumNeighbors :: "eigenMesh \<Rightarrow> nat list \<Rightarrow> vec3 \<Rightarrow> error + vec3" where
  "sumNeighbors targetMesh [] delta = Inr delta"
| "sumNeighbors targetMesh (neighborId # rest) delta =
     ebind (getVertex targetMesh neighborId)
       (\<lambda>p. sumNeighbors targetMesh rest (vadd delta p))"

definition getTargetPoint ::
  "eigenMesh \<Rightarrow> vec3 list \<Rightarrow> nat \<Rightarrow> nat list list \<Rightarrow> error + vec3" where
  "getTargetPoint targetMesh differentialCoordinates vId vertexVertexAdjacencies =
     ebind (vectorAt vertexVertexAdjacencies vId) (\<lambda>neighbors.
     ebind (sumNeighbors targetMesh neighbors (0, 0, 0)) (\<lambda>delta.
     ebind (vectorAt differentialCoordinates vId) (\<lambda>dc.
     if neighbors = [] then Inl NotFinite
     else Inr (vadd dc (vdiv delta (real (length neighbors)))))))"

text \<open>
  \<^verbatim>\<open>internal::isHeightFieldValid\<close>. The normal of a triangle is computed by the
  geometry library (\<^verbatim>\<open>cg3::Triangle3Dd::normal\<close>), which is not part of the sources:
  it is the parameter \<open>normal\<close>.
\<close>

definition movedTriangle ::
  "bool \<Rightarrow> eigenMesh \<Rightarrow> nat \<Rightarrow> vec3 \<Rightarrow> (nat \<times> nat \<times> nat) \<Rightarrow> error + (vec3 \<times> vec3 \<times> vec3)" where
  "movedTriangle asserts targetMesh vId newPoint face =
     (case face of (fx, fy, fz) \<Rightarrow>
        if fx = vId then
          ebind (getVertex targetMesh fy) (\<lambda>p2.
          ebind (getVertex targetMesh fz) (\<lambda>p3. Inr (newPoint, p2, p3)))
        else if fy = vId then
          ebind (getVertex targetMesh fx) (\<lambda>p1.
          ebind (getVertex targetMesh fz) (\<lambda>p3. Inr (p1, newPoint, p3)))
        else if asserts \<and> fz \<noteq> vId then Inl AssertionFailed
        else
          ebind (getVertex targetMesh fx) (\<lambda>p1.
          ebind (getVertex targetMesh fy) (\<lambda>p2. Inr (p1, p2, newPoint))))"

fun facesValid ::
  "(vec3 \<Rightarrow> vec3 \<Rightarrow> vec3 \<Rightarrow> vec3) \<Rightarrow> bool \<Rightarrow> eigenMesh \<Rightarrow> data \<Rightarrow> nat \<Rightarrow> vec3 \<Rightarrow> real \<Rightarrow>
   nat list \<Rightarrow> error + bool" where
  "facesValid normal asserts targetMesh d vId newPoint heightfieldLimit [] = Inr True"
| "facesValid normal asserts targetMesh d vId newPoint heightfieldLimit (fId # rest) =
     ebind (getFace targetMesh fId) (\<lambda>face.
     ebind (movedTriangle asserts targetMesh vId newPoint face) (\<lambda>(p1, p2, p3).
     ebind (idx (association d) fId) (\<lambda>a.
     if a < 0 then Inl OutOfBounds
     else ebind (idx (directions d) (nat a)) (\<lambda>associatedDirection.
       if vdot (normal p1 p2 p3) associatedDirection < heightfieldLimit then Inr False
       else facesValid normal asserts targetMesh d vId newPoint heightfieldLimit rest))))"

definition isHeightFieldValid ::
  "(vec3 \<Rightarrow> vec3 \<Rightarrow> vec3 \<Rightarrow> vec3) \<Rightarrow> bool \<Rightarrow> eigenMesh \<Rightarrow> data \<Rightarrow> nat \<Rightarrow> vec3 \<Rightarrow>
   nat list list \<Rightarrow> real \<Rightarrow> error + bool" where
  "isHeightFieldValid normal asserts targetMesh d vId newPoint vertexFaceAdjacencies heightfieldAngle =
     ebind (vectorAt vertexFaceAdjacencies vId) (\<lambda>fs.
       facesValid normal asserts targetMesh d vId newPoint (cos heightfieldAngle) fs)"

text \<open>
  The binary search of \<^verbatim>\<open>internal::restoreFrequenciesValidHeightfields\<close>: the
  \<^verbatim>\<open>while\<close> loop, with the validity test of the candidate as the function \<open>valid\<close>.
  The test is evaluated before the counter is compared, as in the source. The result is
  the last candidate and the number of halvings; \<open>halve\<close> is
  \<^verbatim>\<open>0.5 * (targetPoint + currentPoint)\<close>.
\<close>

definition halve :: "vec3 \<Rightarrow> vec3 \<Rightarrow> vec3" where
  "halve currentPoint targetPoint = vscale (1 / 2) (vadd targetPoint currentPoint)"

function binarySearch ::
  "(vec3 \<Rightarrow> error + bool) \<Rightarrow> vec3 \<Rightarrow> vec3 \<Rightarrow> nat \<Rightarrow> error + (vec3 \<times> nat)" where
  "binarySearch valid currentPoint targetPoint count =
     (case valid targetPoint of
        Inl e \<Rightarrow> Inl e
      | Inr ok \<Rightarrow>
          if \<not> ok \<and> count < BINARY_SEARCH_ITERATIONS
          then binarySearch valid currentPoint (halve currentPoint targetPoint) (count + 1)
          else Inr (targetPoint, count))"
  by pat_completeness auto
termination
  by (relation "measure (\<lambda>(valid, currentPoint, targetPoint, count).
        BINARY_SEARCH_ITERATIONS - count)") auto

text \<open>The body of the loop over the vertices: one vertex is moved, or left where it is.\<close>

definition restoreVertex ::
  "(vec3 \<Rightarrow> vec3 \<Rightarrow> vec3 \<Rightarrow> vec3) \<Rightarrow> bool \<Rightarrow> vec3 list \<Rightarrow> nat list list \<Rightarrow> nat list list \<Rightarrow>
   data \<Rightarrow> real \<Rightarrow> eigenMesh \<Rightarrow> nat \<Rightarrow> error + (eigenMesh \<times> bool)" where
  "restoreVertex normal asserts differentialCoordinates vertexVertexAdjacencies
     vertexFaceAdjacencies d heightfieldAngle targetMesh vId =
     ebind (getVertex targetMesh vId) (\<lambda>currentPoint.
     ebind (getTargetPoint targetMesh differentialCoordinates vId vertexVertexAdjacencies)
       (\<lambda>targetPoint.
     ebind (binarySearch
              (\<lambda>p. isHeightFieldValid normal asserts targetMesh d vId p
                      vertexFaceAdjacencies heightfieldAngle)
              currentPoint targetPoint 0) (\<lambda>(targetPoint', count).
     if count < BINARY_SEARCH_ITERATIONS
     then Inr (setVertex targetMesh vId targetPoint', True)
     else Inr (targetMesh, False))))"

text \<open>
  The loop over the vertices, in the order of the list of vertex ids; each step works on
  the mesh the steps before it have left.
\<close>

fun restoreSweep ::
  "(vec3 \<Rightarrow> vec3 \<Rightarrow> vec3 \<Rightarrow> vec3) \<Rightarrow> bool \<Rightarrow> vec3 list \<Rightarrow> nat list list \<Rightarrow> nat list list \<Rightarrow>
   data \<Rightarrow> real \<Rightarrow> nat list \<Rightarrow> eigenMesh \<Rightarrow> bool \<Rightarrow> error + (eigenMesh \<times> bool)" where
  "restoreSweep normal asserts dcs vva vfa d angle [] targetMesh aVertexHasMoved =
     Inr (targetMesh, aVertexHasMoved)"
| "restoreSweep normal asserts dcs vva vfa d angle (vId # vIds) targetMesh aVertexHasMoved =
     ebind (restoreVertex normal asserts dcs vva vfa d angle targetMesh vId)
       (\<lambda>(targetMesh', moved).
          restoreSweep normal asserts dcs vva vfa d angle vIds targetMesh'
            (aVertexHasMoved \<or> moved))"

definition restoreFrequenciesValidHeightfields ::
  "(vec3 \<Rightarrow> vec3 \<Rightarrow> vec3 \<Rightarrow> vec3) \<Rightarrow> bool \<Rightarrow> eigenMesh \<Rightarrow> vec3 list \<Rightarrow> nat list list \<Rightarrow>
   nat list list \<Rightarrow> data \<Rightarrow> real \<Rightarrow> error + (eigenMesh \<times> bool)" where
  "restoreFrequenciesValidHeightfields normal asserts targetMesh differentialCoordinates
     vertexVertexAdjacencies vertexFaceAdjacencies d heightfieldAngle =
     restoreSweep normal asserts differentialCoordinates vertexVertexAdjacencies
       vertexFaceAdjacencies d heightfieldAngle [0..<getNumberVertices targetMesh]
       targetMesh False"

text \<open>
  \<^verbatim>\<open>internal::computeDifferentialCoordinates\<close>, for each vertex in turn.
\<close>

fun sumDifferences :: "eigenMesh \<Rightarrow> vec3 \<Rightarrow> nat list \<Rightarrow> vec3 \<Rightarrow> error + vec3" where
  "sumDifferences mesh currentPoint [] delta = Inr delta"
| "sumDifferences mesh currentPoint (neighborId # rest) delta =
     ebind (getVertex mesh neighborId)
       (\<lambda>p. sumDifferences mesh currentPoint rest (vadd delta (vsub currentPoint p)))"

definition differentialCoordinate :: "eigenMesh \<Rightarrow> nat list list \<Rightarrow> nat \<Rightarrow> error + vec3" where
  "differentialCoordinate mesh vertexVertexAdjacencies vId =
     ebind (getVertex mesh vId) (\<lambda>currentPoint.
     ebind (vectorAt vertexVertexAdjacencies vId) (\<lambda>neighbors.
     ebind (sumDifferences mesh currentPoint neighbors (0, 0, 0)) (\<lambda>delta.
     if neighbors = [] then Inl NotFinite
     else Inr (vdiv delta (real (length neighbors))))))"

fun emap :: "('a \<Rightarrow> error + 'b) \<Rightarrow> 'a list \<Rightarrow> error + 'b list" where
  "emap f [] = Inr []"
| "emap f (x # xs) = ebind (f x) (\<lambda>y. ebind (emap f xs) (\<lambda>ys. Inr (y # ys)))"

definition computeDifferentialCoordinates ::
  "eigenMesh \<Rightarrow> nat list list \<Rightarrow> error + vec3 list" where
  "computeDifferentialCoordinates mesh vertexVertexAdjacencies =
     emap (differentialCoordinate mesh vertexVertexAdjacencies) [0..<getNumberVertices mesh]"

text \<open>
  \<^verbatim>\<open>restoreFrequencies\<close>. The adjacencies come from the mesh library
  (\<^verbatim>\<open>cg3::libigl\<close>) and so do the updates of the normals and of the bounding box
  after the loop: they are the parameters \<open>vvAdj\<close>, \<open>vfAdj\<close>, \<open>ffAdj\<close> and
  \<open>updateNormalsAndBox\<close>. The target mesh is \<open>data.restoredMesh\<close> itself, so every
  sweep reads the directions and the association of a \<open>data\<close> that holds the current
  mesh.
\<close>

fun restoreIterations ::
  "(vec3 \<Rightarrow> vec3 \<Rightarrow> vec3 \<Rightarrow> vec3) \<Rightarrow> bool \<Rightarrow> vec3 list \<Rightarrow> nat list list \<Rightarrow> nat list list \<Rightarrow>
   real \<Rightarrow> nat \<Rightarrow> data \<Rightarrow> error + data" where
  "restoreIterations normal asserts dcs vva vfa angle 0 d = Inr d"
| "restoreIterations normal asserts dcs vva vfa angle (Suc i) d =
     ebind (restoreFrequenciesValidHeightfields normal asserts (restoredMesh d) dcs vva vfa d angle)
       (\<lambda>(targetMesh, moved).
          restoreIterations normal asserts dcs vva vfa angle i (d\<lparr>restoredMesh := targetMesh\<rparr>))"

definition restoreFrequencies ::
  "(vec3 \<Rightarrow> vec3 \<Rightarrow> vec3 \<Rightarrow> vec3) \<Rightarrow> (eigenMesh \<Rightarrow> nat list list) \<Rightarrow> (eigenMesh \<Rightarrow> nat list list) \<Rightarrow>
   (eigenMesh \<Rightarrow> nat list list) \<Rightarrow> (eigenMesh \<Rightarrow> eigenMesh) \<Rightarrow> bool \<Rightarrow>
   nat \<Rightarrow> real \<Rightarrow> eigenMesh \<Rightarrow> eigenMesh \<Rightarrow> data \<Rightarrow> error + data" where
  "restoreFrequencies normal vvAdj vfAdj ffAdj updateNormalsAndBox asserts
     iterations heightfieldAngle originalMesh smoothedMesh d =
     (if asserts \<and> (getNumberVertices originalMesh \<noteq> getNumberVertices smoothedMesh
                   \<or> getNumberFaces originalMesh \<noteq> getNumberFaces smoothedMesh)
      then Inl AssertionFailed
      else let vertexVertexAdjacencies = vvAdj originalMesh in
      if asserts \<and> length vertexVertexAdjacencies \<noteq> getNumberVertices originalMesh
      then Inl AssertionFailed
      else let vertexFaceAdjacencies = vfAdj originalMesh in
      if asserts \<and> length vertexFaceAdjacencies \<noteq> getNumberVertices originalMesh
      then Inl AssertionFailed
      else let faceFaceAdjacencies = ffAdj originalMesh in
      if asserts \<and> length faceFaceAdjacencies \<noteq> getNumberFaces originalMesh
      then Inl AssertionFailed
      else
        ebind (computeDifferentialCoordinates originalMesh vertexVertexAdjacencies)
          (\<lambda>differentialCoordinates.
        ebind (restoreIterations normal asserts differentialCoordinates
                 vertexVertexAdjacencies vertexFaceAdjacencies heightfieldAngle iterations
                 (d\<lparr>restoredMesh := smoothedMesh\<rparr>))
          (\<lambda>d1.
        let d2 = d1\<lparr>restoredMesh := updateNormalsAndBox (restoredMesh d1)\<rparr> in
        Inr (d2\<lparr>restoredMeshAssociation := association d2,
                 restoredMeshNonVisibleFaces := nonVisibleFaces d2,
                 restoredMeshVisibility := visibility d2\<rparr>))))"

section \<open>The visibility recheck after restoration\<close>

datatype checkMode = OPENGL | RAYSHOOTING | PROJECTION

definition emptyMesh :: eigenMesh where
  "emptyMesh = \<lparr>vertices = [], faces = [], faceNormals = [], bbMinZ = 0, bbMaxZ = 0\<rparr>"

definition emptyData :: data where
  "emptyData =
     \<lparr>minExtremes = [], maxExtremes = [], directions = [], angles = [],
      visibility = newArray2d 0 0, nonVisibleFaces = [], association = [],
      restoredMesh = emptyMesh, restoredMeshAssociation = [],
      restoredMeshNonVisibleFaces = [], restoredMeshVisibility = newArray2d 0 0\<rparr>"

text \<open>
  \<^verbatim>\<open>const int nDirections = (data.directions.size()-2)/2\<close>: the subtraction and the
  division are on \<^verbatim>\<open>size_t\<close> (64 bits), the result is narrowed to 32 bits and passed on
  as an \<^verbatim>\<open>unsigned int\<close>.
\<close>

definition recheckDirections :: "nat \<Rightarrow> nat" where
  "recheckDirections n = unat (ucast (((of_nat n :: 64 word) - 2) div 2) :: 32 word)"

text \<open>
  The loop over \<open>restoredMeshAssociation\<close>: a face whose entry in the new visibility, at
  its associated direction, is below 1 is pushed back. The association is a vector of
  \<^verbatim>\<open>int\<close>; a negative one indexes the array out of its bounds.
\<close>

fun recheckFaces :: "array2d \<Rightarrow> int list \<Rightarrow> nat \<Rightarrow> nat list \<Rightarrow> error + nat list" where
  "recheckFaces vis [] faceId acc = Inr acc"
| "recheckFaces vis (a # rest) faceId acc =
     (if a < 0 then Inl OutOfBounds
      else ebind (aget vis (nat a) faceId) (\<lambda>v.
        recheckFaces vis rest (faceId + 1) (if v < 1 then acc @ [faceId] else acc)))"

text \<open>
  \<^verbatim>\<open>return (unsigned int) data.restoredMeshNonVisibleFaces.size() - data.nonVisibleFaces.size()\<close>:
  the cast binds to the first size only, the subtraction is on 64 bits and wraps, and
  the result is narrowed to the 32 bits of the return type.
\<close>

definition noLongerVisible :: "nat \<Rightarrow> nat \<Rightarrow> 32 word" where
  "noLongerVisible restoredSize oldSize =
     ucast ((ucast (of_nat restoredSize :: 32 word) :: 64 word) - (of_nat oldSize :: 64 word))"

text \<open>
  \<^verbatim>\<open>checkVisibilityAfterFrequenciesAreRestored\<close>. \<open>getVisibility\<close>, of the visibility
  module, is a parameter here: its signature in this file is not the one of the
  visibility module under the sources.
\<close>

definition checkVisibilityAfterFrequenciesAreRestored ::
  "(eigenMesh \<Rightarrow> nat \<Rightarrow> bool \<Rightarrow> data \<Rightarrow> real \<Rightarrow> checkMode \<Rightarrow> error + data) \<Rightarrow>
   data \<Rightarrow> real \<Rightarrow> checkMode \<Rightarrow> error + (data \<times> 32 word)" where
  "checkVisibilityAfterFrequenciesAreRestored getVisibility d heightfieldAngle mode =
     (let targetMesh = restoredMesh d;
          nDirections = recheckDirections (length (directions d));
          newData = emptyData\<lparr>minExtremes := minExtremes d, maxExtremes := maxExtremes d\<rparr>
      in
        ebind (getVisibility targetMesh nDirections True newData heightfieldAngle mode)
          (\<lambda>newData'.
        let d1 = d\<lparr>restoredMeshVisibility := visibility newData'\<rparr> in
        ebind (recheckFaces (visibility newData') (restoredMeshAssociation d1) 0 [])
          (\<lambda>nonVisible.
        let d2 = d1\<lparr>restoredMeshNonVisibleFaces := nonVisible\<rparr> in
        Inr (d2, noLongerVisible (length (restoredMeshNonVisibleFaces d2))
                   (length (nonVisibleFaces d2))))))"

section \<open>Direction-set minimisation\<close>

text \<open>
  \<^verbatim>\<open>FourAxisFabrication::minimizeNumberPlanes\<close>. Whether the solver is compiled in
  (\<^verbatim>\<open>GUROBI_DEFINED\<close>) is the flag \<open>gurobiDefined\<close>. The solver itself is external: for
  the problem built from a visibility matrix it either throws before any value is read
  back (the environment, the model or \<^verbatim>\<open>optimize\<close>), or it gives the value of each
  variable, where reading a value back can throw as well. Both \<^verbatim>\<open>catch\<close> blocks only
  print; \<open>survivedPlanes\<close> keeps what was pushed before the exception.
\<close>

datatype gurobi = Throws | Optimized "nat \<Rightarrow> real option"

fun readSolution :: "(nat \<Rightarrow> real option) \<Rightarrow> nat list \<Rightarrow> nat list \<Rightarrow> nat list" where
  "readSolution x [] survivedPlanes = survivedPlanes"
| "readSolution x (i # rest) survivedPlanes =
     (case x i of
        None \<Rightarrow> survivedPlanes
      | Some v \<Rightarrow> readSolution x rest (if v = 1 then survivedPlanes @ [i] else survivedPlanes))"

definition minimizeNumberPlanes :: "bool \<Rightarrow> (array2d \<Rightarrow> gurobi) \<Rightarrow> array2d \<Rightarrow> nat list" where
  "minimizeNumberPlanes gurobiDefined solver vis =
     (let nOrientations = sizeX vis in
      if gurobiDefined then
        (case solver vis of
           Throws \<Rightarrow> []
         | Optimized x \<Rightarrow> readSolution x [0..<nOrientations] [])
      else [0..<nOrientations])"

section \<open>Extreme faces\<close>

text \<open>
  The centroid of a face, as \<^verbatim>\<open>triangleComparator\<close> computes it. The reads of the
  comparator are the unchecked reads of the source: on a mesh whose faces name vertices
  of the mesh they are in range.
\<close>

definition centroid :: "eigenMesh \<Rightarrow> nat \<Rightarrow> vec3" where
  "centroid m f =
     (case faces m ! f of (a, b, c) \<Rightarrow>
        vdiv (vadd (vadd (vertices m ! a) (vertices m ! b)) (vertices m ! c)) 3)"

text \<open>
  Modelled from the spec: \<^verbatim>\<open>cg3::Pointd::operator<\<close>, with which
  \<^verbatim>\<open>triangleComparator\<close> compares two centroids, is not part of the sources; the
  specification has it as the lexicographic order of the coordinates, which is the
  order of \<^typ>\<open>vec3\<close> here.
\<close>

definition triangleComparator :: "eigenMesh \<Rightarrow> nat \<Rightarrow> nat \<Rightarrow> bool" where
  "triangleComparator m f1 f2 = (centroid m f1 < centroid m f2)"

text \<open>
  \<^verbatim>\<open>std::sort\<close> with this comparator: the faces in the order of their centroids.
  \<^verbatim>\<open>std::sort\<close> leaves the order of faces with equal centroids open; the model keeps
  them in the order of their indices.
\<close>

definition sortFaces :: "eigenMesh \<Rightarrow> nat list \<Rightarrow> nat list" where
  "sortFaces m fIndices = sort_key (centroid m) fIndices"

definition epsilon :: real where
  "epsilon = 1 / 2 ^ 52"

definition minusX :: vec3 where
  "minusX = (- 1, 0, 0)"

definition plusX :: vec3 where
  "plusX = (1, 0, 0)"

definition getFaceNormal :: "eigenMesh \<Rightarrow> nat \<Rightarrow> error + vec3" where
  "getFaceNormal m f = idx (faceNormals m) f"

text \<open>
  The two loops of \<^verbatim>\<open>cutExtremes\<close>. Neither compares \<open>i\<close> with the size of
  \<open>fIndices\<close>: the read \<open>fIndices[i]\<close> is the checked read of the model. In the second
  loop \<open>i\<close> is unsigned: decremented at 0 it is \<open>4294967295\<close>, which is past the end of
  \<open>fIndices\<close>, whose size is the \<^verbatim>\<open>unsigned int\<close> number of faces.
\<close>

function walkMin :: "eigenMesh \<Rightarrow> nat list \<Rightarrow> nat \<Rightarrow> nat list \<Rightarrow> error + nat list" where
  "walkMin m fIndices i minExtreme =
     (case idx fIndices i of
        Inl e \<Rightarrow> Inl e
      | Inr f \<Rightarrow>
          (case getFaceNormal m f of
             Inl e \<Rightarrow> Inl e
           | Inr n \<Rightarrow>
               if vdot n minusX \<ge> - epsilon
               then walkMin m fIndices (i + 1) (minExtreme @ [f])
               else Inr minExtreme))"
  by pat_completeness auto
termination
  by (relation "measure (\<lambda>(m, fIndices, i, minExtreme). length fIndices - i)")
     (auto simp: idx_def split: if_splits)

function walkMax :: "eigenMesh \<Rightarrow> nat list \<Rightarrow> nat \<Rightarrow> nat list \<Rightarrow> error + nat list" where
  "walkMax m fIndices i maxExtreme =
     (case idx fIndices i of
        Inl e \<Rightarrow> Inl e
      | Inr f \<Rightarrow>
          (case getFaceNormal m f of
             Inl e \<Rightarrow> Inl e
           | Inr n \<Rightarrow>
               if vdot n plusX \<ge> - epsilon
               then (if i = 0 then Inl OutOfBounds
                     else walkMax m fIndices (i - 1) (maxExtreme @ [f]))
               else Inr maxExtreme))"
  by pat_completeness auto
termination
  by (relation "measure (\<lambda>(m, fIndices, i, maxExtreme). i)") auto

text \<open>
  \<^verbatim>\<open>FourAxisFabrication::cutExtremes\<close>. The second loop starts at
  \<open>fIndices.size() - 1\<close>, which for an empty \<open>fIndices\<close> is past its end.
\<close>

definition cutExtremes :: "eigenMesh \<Rightarrow> error + (nat list \<times> nat list)" where
  "cutExtremes m =
     (let fIndices = sortFaces m [0..<getNumberFaces m] in
      ebind (walkMin m fIndices 0 []) (\<lambda>minExtreme.
      ebind (if fIndices = [] then Inl OutOfBounds
             else walkMax m fIndices (length fIndices - 1) []) (\<lambda>maxExtreme.
      Inr (minExtreme, maxExtreme))))"

section \<open>Visibility check\<close>

text \<open>
  The geometry library that the visibility check calls is not part of the sources.
  Its functions are the fields of \<open>geometry\<close>: the faces of a mesh that a segment
  intersects (\<^verbatim>\<open>cg3::cgal::AABBTree3::getIntersectedEigenFaces\<close>, as face indices), the
  reordering of a projected triangle, the overlap query of the tree of projected
  triangles (the tree is the list of the triangles inserted so far), and the rotation
  of a mesh and of a vector about an axis by an angle.
\<close>

type_synonym point2d = "real \<times> real"

type_synonym triangle2d = "point2d \<times> point2d \<times> point2d"

record geometry =
  intersectedFaces :: "eigenMesh \<Rightarrow> vec3 \<Rightarrow> vec3 \<Rightarrow> nat list"
  sortTriangle :: "triangle2d \<Rightarrow> triangle2d"
  overlapCheck :: "triangle2d list \<Rightarrow> triangle2d \<Rightarrow> bool"
  rotateMesh :: "vec3 \<Rightarrow> real \<Rightarrow> eigenMesh \<Rightarrow> eigenMesh"
  rotateVec :: "vec3 \<Rightarrow> real \<Rightarrow> vec3 \<Rightarrow> vec3"

text \<open>A loop over a list that threads a state and stops at the first error.\<close>

fun efold :: "('a \<Rightarrow> 's \<Rightarrow> error + 's) \<Rightarrow> 'a list \<Rightarrow> 's \<Rightarrow> error + 's" where
  "efold f [] st = Inr st"
| "efold f (x # xs) st = ebind (f x st) (efold f xs)"

definition zDirMax :: vec3 where
  "zDirMax = (0, 0, 1)"

definition zDirMin :: vec3 where
  "zDirMin = (0, 0, - 1)"

definition barycenter :: "eigenMesh \<Rightarrow> nat \<Rightarrow> error + vec3" where
  "barycenter mesh f =
     ebind (getFace mesh f) (\<lambda>(a, b, c).
     ebind (getVertex mesh a) (\<lambda>v1.
     ebind (getVertex mesh b) (\<lambda>v2.
     ebind (getVertex mesh c) (\<lambda>v3.
     Inr (vdiv (vadd (vadd v1 v2) v3) 3)))))"

subsection \<open>Ray shooting\<close>

text \<open>
  The loop of \<^verbatim>\<open>getVisibilityRayShootingOnZ\<close> over the faces that the ray of one
  barycenter intersects. The state is \<open>(maxZCoordinate, maxZFace, minZCoordinate, minZFace)\<close>;
  the two faces are \<^verbatim>\<open>int\<close>, \<open>-1\<close> at the start. The normal of a face is read only
  when the comparison of the z-coordinates before it holds, as \<^verbatim>\<open>&&\<close> does.
\<close>

definition selectStep ::
  "eigenMesh \<Rightarrow> bool \<Rightarrow> real \<Rightarrow> nat \<Rightarrow> real \<times> int \<times> real \<times> int \<Rightarrow>
   error + (real \<times> int \<times> real \<times> int)" where
  "selectStep mesh opposite heightFieldLimit intersectedFace st =
     (case st of (maxZCoordinate, maxZFace, minZCoordinate, minZFace) \<Rightarrow>
        ebind (barycenter mesh intersectedFace) (\<lambda>currentBarycenter.
        ebind (if vz currentBarycenter > maxZCoordinate
               then ebind (getFaceNormal mesh intersectedFace) (\<lambda>n.
                      if vdot zDirMax n \<ge> heightFieldLimit
                      then Inr (vz currentBarycenter, int intersectedFace)
                      else Inr (maxZCoordinate, maxZFace))
               else Inr (maxZCoordinate, maxZFace)) (\<lambda>(maxZCoordinate', maxZFace').
        ebind (if opposite \<and> vz currentBarycenter < minZCoordinate
               then ebind (getFaceNormal mesh intersectedFace) (\<lambda>n.
                      if vdot zDirMin n \<ge> heightFieldLimit
                      then Inr (vz currentBarycenter, int intersectedFace)
                      else Inr (minZCoordinate, minZFace))
               else Inr (minZCoordinate, minZFace)) (\<lambda>(minZCoordinate', minZFace').
        Inr (maxZCoordinate', maxZFace', minZCoordinate', minZFace')))))"

text \<open>
  The write \<open>visibility(directionIndex, face) = 1\<close> for an \<^verbatim>\<open>int\<close> face: a negative
  face is an index far past the row. \<open>assertVisible\<close> is the pair of assertions after
  the writes (and the \<^verbatim>\<open>RELEASECHECK\<close> tests, which exit): the normal of the face is
  read first, then the face is compared with 0.
\<close>

definition setVisible :: "array2d \<Rightarrow> nat \<Rightarrow> int \<Rightarrow> error + array2d" where
  "setVisible vis directionIndex face =
     (if face < 0 then Inl OutOfBounds else aset vis directionIndex (nat face) 1)"

definition assertVisible :: "eigenMesh \<Rightarrow> vec3 \<Rightarrow> real \<Rightarrow> int \<Rightarrow> error + unit" where
  "assertVisible mesh zDir heightFieldLimit face =
     (if face < 0 then Inl OutOfBounds
      else ebind (getFaceNormal mesh (nat face)) (\<lambda>n.
        if vdot zDir n \<ge> heightFieldLimit then Inr () else Inl AssertionFailed))"

text \<open>
  The body of the loop over the faces, for one barycenter: the faces that the segment
  through it intersects, from above the bounding box to below it; the selection among
  them; the writes and the assertions.
\<close>

definition barIntersection :: "geometry \<Rightarrow> eigenMesh \<Rightarrow> nat \<Rightarrow> error + nat list" where
  "barIntersection lib mesh faceIndex =
     (let minZ = bbMinZ mesh - 1; maxZ = bbMaxZ mesh + 1 in
      ebind (barycenter mesh faceIndex) (\<lambda>bar.
      case bar of (barX, barY, barZ) \<Rightarrow>
        Inr (intersectedFaces lib mesh (barX, barY, maxZ) (barX, barY, minZ))))"

definition selectFaces ::
  "eigenMesh \<Rightarrow> bool \<Rightarrow> real \<Rightarrow> nat list \<Rightarrow> error + (real \<times> int \<times> real \<times> int)" where
  "selectFaces mesh opposite heightFieldLimit intersected =
     (let minZ = bbMinZ mesh - 1; maxZ = bbMaxZ mesh + 1 in
      efold (selectStep mesh opposite heightFieldLimit) intersected (minZ, - 1, maxZ, - 1))"

definition rayShootFace ::
  "geometry \<Rightarrow> bool \<Rightarrow> eigenMesh \<Rightarrow> nat \<Rightarrow> int \<Rightarrow> real \<Rightarrow> nat \<Rightarrow> array2d \<Rightarrow>
   error + array2d" where
  "rayShootFace lib asserts mesh directionIndex oppositeDirectionIndex heightFieldLimit
     faceIndex vis =
     ebind (barIntersection lib mesh faceIndex) (\<lambda>intersected.
     if asserts \<and> length intersected < 2 then Inl AssertionFailed
     else
       ebind (selectFaces mesh (oppositeDirectionIndex \<ge> 0) heightFieldLimit intersected)
         (\<lambda>(maxZCoordinate, maxZFace, minZCoordinate, minZFace).
       ebind (setVisible vis directionIndex maxZFace) (\<lambda>vis1.
       ebind (if oppositeDirectionIndex \<ge> 0
              then setVisible vis1 (nat oppositeDirectionIndex) minZFace
              else Inr vis1) (\<lambda>vis2.
       ebind (if asserts then assertVisible mesh zDirMax heightFieldLimit maxZFace
              else Inr ()) (\<lambda>u.
       ebind (if asserts \<and> oppositeDirectionIndex \<ge> 0
              then assertVisible mesh zDirMin heightFieldLimit minZFace
              else Inr ()) (\<lambda>u.
       Inr vis2))))))"

definition getVisibilityRayShootingOnZ ::
  "geometry \<Rightarrow> bool \<Rightarrow> eigenMesh \<Rightarrow> nat list \<Rightarrow> nat \<Rightarrow> int \<Rightarrow> array2d \<Rightarrow> real \<Rightarrow>
   error + array2d" where
  "getVisibilityRayShootingOnZ lib asserts mesh fs directionIndex oppositeDirectionIndex vis
     heightfieldAngle =
     efold (rayShootFace lib asserts mesh directionIndex oppositeDirectionIndex
              (cos heightfieldAngle)) fs vis"

subsection \<open>Projection\<close>

text \<open>
  \<^verbatim>\<open>TriangleZComparator\<close> orders the faces by the least z-coordinate of their
  vertices (unchecked reads, as in the source); \<^verbatim>\<open>std::sort\<close> with it is \<open>sort_key\<close>,
  which keeps faces of equal key in the order they had.
\<close>

definition minZOfFace :: "eigenMesh \<Rightarrow> nat \<Rightarrow> real" where
  "minZOfFace m f =
     (case faces m ! f of (a, b, c) \<Rightarrow>
        min (min (vz (vertices m ! a)) (vz (vertices m ! b))) (vz (vertices m ! c)))"

definition triangleZComparator :: "eigenMesh \<Rightarrow> nat \<Rightarrow> nat \<Rightarrow> bool" where
  "triangleZComparator m f1 f2 = (minZOfFace m f1 < minZOfFace m f2)"

fun projectOnZ :: "vec3 \<Rightarrow> point2d" where
  "projectOnZ (x, y, z) = (x, y)"

text \<open>
  \<^verbatim>\<open>getVisibilityProjectionOnZ\<close> for one face: the state is the tree of the projected
  triangles accepted so far and the visibility.
\<close>

definition projectFace ::
  "geometry \<Rightarrow> eigenMesh \<Rightarrow> nat \<Rightarrow> vec3 \<Rightarrow> real \<Rightarrow> nat \<Rightarrow> triangle2d list \<times> array2d \<Rightarrow>
   error + (triangle2d list \<times> array2d)" where
  "projectFace lib mesh directionIndex direction heightfieldAngle faceId st =
     (case st of (aabbTree, vis) \<Rightarrow>
        ebind (getFaceNormal mesh faceId) (\<lambda>n.
        if vdot direction n \<ge> cos heightfieldAngle then
          ebind (getFace mesh faceId) (\<lambda>(a, b, c).
          ebind (getVertex mesh a) (\<lambda>v1.
          ebind (getVertex mesh b) (\<lambda>v2.
          ebind (getVertex mesh c) (\<lambda>v3.
          let triangle = sortTriangle lib (projectOnZ v1, projectOnZ v2, projectOnZ v3) in
          if \<not> overlapCheck lib aabbTree triangle
          then ebind (aset vis directionIndex faceId 1) (\<lambda>vis'.
                 Inr (aabbTree @ [triangle], vis'))
          else Inr (aabbTree, vis)))))
        else Inr (aabbTree, vis)))"

definition getVisibilityProjectionOnZ ::
  "geometry \<Rightarrow> eigenMesh \<Rightarrow> nat list \<Rightarrow> nat \<Rightarrow> int \<Rightarrow> array2d \<Rightarrow> real \<Rightarrow> error + array2d" where
  "getVisibilityProjectionOnZ lib mesh fs directionIndex oppositeDirectionIndex vis
     heightfieldAngle =
     (let orderedZFaces = sort_key (minZOfFace mesh) fs in
      ebind (efold (projectFace lib mesh directionIndex zDirMax heightfieldAngle)
               (rev orderedZFaces) ([], vis)) (\<lambda>(aabbTreeMax, vis1).
      if oppositeDirectionIndex \<ge> 0
      then ebind (efold (projectFace lib mesh (nat oppositeDirectionIndex) zDirMin
                           heightfieldAngle) orderedZFaces ([], vis1))
             (\<lambda>(aabbTreeMin, vis2). Inr vis2)
      else Inr vis1))"

subsection \<open>All directions\<close>

definition xAxis :: vec3 where
  "xAxis = (1, 0, 0)"

definition yAxis :: vec3 where
  "yAxis = (0, 1, 0)"

fun setAngles :: "nat \<Rightarrow> real \<Rightarrow> real \<Rightarrow> real list" where
  "setAngles 0 angleSum stepAngle = []"
| "setAngles (Suc n) angleSum stepAngle =
     angleSum # setAngles n (angleSum + stepAngle) stepAngle"

definition checkOnZ ::
  "geometry \<Rightarrow> bool \<Rightarrow> checkMode \<Rightarrow> eigenMesh \<Rightarrow> nat list \<Rightarrow> nat \<Rightarrow> int \<Rightarrow> array2d \<Rightarrow> real \<Rightarrow>
   error + array2d" where
  "checkOnZ lib asserts mode mesh fs directionIndex oppositeDirectionIndex vis heightfieldAngle =
     (if mode = RAYSHOOTING
      then getVisibilityRayShootingOnZ lib asserts mesh fs directionIndex oppositeDirectionIndex
             vis heightfieldAngle
      else getVisibilityProjectionOnZ lib mesh fs directionIndex oppositeDirectionIndex
             vis heightfieldAngle)"

text \<open>
  The body of the loop over the directions of \<^verbatim>\<open>computeVisibilityProjectionRay\<close>: the
  state is the rotating mesh, the current direction, the directions set so far and the
  visibility. The vector of the directions has two entries a step and two more, so both
  writes to it are within its bounds.
\<close>

definition directionStep ::
  "geometry \<Rightarrow> bool \<Rightarrow> checkMode \<Rightarrow> nat list \<Rightarrow> nat \<Rightarrow> real \<Rightarrow> real \<Rightarrow> nat \<Rightarrow>
   eigenMesh \<times> vec3 \<times> vec3 list \<times> array2d \<Rightarrow> error + (eigenMesh \<times> vec3 \<times> vec3 list \<times> array2d)" where
  "directionStep lib asserts mode targetFaces halfNDirections stepAngle heightfieldAngle
     dirIndex st =
     (case st of (rotatingMesh, dir, dirs, vis) \<Rightarrow>
        ebind (checkOnZ lib asserts mode rotatingMesh targetFaces dirIndex
                 (int (halfNDirections + dirIndex)) vis heightfieldAngle) (\<lambda>vis'.
        Inr (rotateMesh lib xAxis (- stepAngle) rotatingMesh,
             rotateVec lib xAxis stepAngle dir,
             dirs[dirIndex := dir, halfNDirections + dirIndex := vscale (- 1) dir],
             vis')))"

text \<open>The two loops that seed the rows of the extremes from the extreme faces.\<close>

definition seedExtremes :: "nat \<Rightarrow> nat list \<Rightarrow> array2d \<Rightarrow> error + array2d" where
  "seedExtremes index extremes vis = efold (\<lambda>faceId v. aset v index faceId 1) extremes vis"

definition computeVisibilityProjectionRay ::
  "geometry \<Rightarrow> bool \<Rightarrow> eigenMesh \<Rightarrow> nat \<Rightarrow> real \<Rightarrow> bool \<Rightarrow> nat list \<Rightarrow> nat list \<Rightarrow> checkMode \<Rightarrow>
   error + (vec3 list \<times> real list \<times> array2d)" where
  "computeVisibilityProjectionRay lib asserts mesh nDirections heightfieldAngle
     includeXDirections minExtremes' maxExtremes' mode =
     (let halfNDirections = nDirections div 2;
          vis0 = newArray2d (halfNDirections * 2 + 2) (getNumberFaces mesh);
          dirs0 = replicate (halfNDirections * 2 + 2) (0, 0, 0);
          targetFaces = [0..<getNumberFaces mesh];
          stepAngle = pi / real halfNDirections;
          angles' = setAngles (halfNDirections * 2) 0 stepAngle
      in
        ebind (efold (directionStep lib asserts mode targetFaces halfNDirections stepAngle
                        heightfieldAngle)
                 [0..<halfNDirections] (mesh, zDirMax, dirs0, vis0))
          (\<lambda>(rotatingMesh, dir, dirs1, vis1).
        let minIndex = halfNDirections * 2;
            maxIndex = halfNDirections * 2 + 1;
            dirs2 = dirs1[minIndex := (- 1, 0, 0), maxIndex := (1, 0, 0)]
        in
          ebind (if includeXDirections
                 then checkOnZ lib asserts mode (rotateMesh lib yAxis (pi / 2) mesh) targetFaces
                        minIndex (int maxIndex) vis1 heightfieldAngle
                 else ebind (seedExtremes minIndex minExtremes' vis1)
                        (seedExtremes maxIndex maxExtremes')) (\<lambda>vis2.
          Inr (dirs2, angles', vis2))))"

subsection \<open>Non-visible faces\<close>

text \<open>
  \<^verbatim>\<open>internal::detectNonVisibleFaces\<close>: both loops stay within the sizes of the
  array. \<open>foundVisible\<close> is the inner loop, which stops at the first entry that is 1.
\<close>

fun foundVisible :: "array2d \<Rightarrow> nat \<Rightarrow> nat list \<Rightarrow> bool" where
  "foundVisible vis faceId [] = False"
| "foundVisible vis faceId (i # rest) =
     (if cells vis i faceId = 1 then True else foundVisible vis faceId rest)"

fun detectLoop :: "array2d \<Rightarrow> nat list \<Rightarrow> nat list \<Rightarrow> nat list" where
  "detectLoop vis [] nonVisible = nonVisible"
| "detectLoop vis (faceId # rest) nonVisible =
     detectLoop vis rest
       (if \<not> foundVisible vis faceId [0..<sizeX vis] then nonVisible @ [faceId]
        else nonVisible)"

definition detectNonVisibleFaces :: "array2d \<Rightarrow> nat list \<Rightarrow> nat list" where
  "detectNonVisibleFaces vis nonVisible = detectLoop vis [0..<sizeY vis] []"

text \<open>
  \<^verbatim>\<open>getVisibility\<close>, in a build with \<^verbatim>\<open>FAF_NO_GL_VISIBILITY\<close>: the mode \<open>OPENGL\<close>
  throws, the error \<open>NotSupported\<close>. The detector reads the visibility and writes the
  non-visible faces only.
\<close>

definition getVisibility ::
  "geometry \<Rightarrow> bool \<Rightarrow> eigenMesh \<Rightarrow> nat \<Rightarrow> nat \<Rightarrow> real \<Rightarrow> bool \<Rightarrow> data \<Rightarrow> checkMode \<Rightarrow>
   error + data" where
  "getVisibility lib asserts mesh nDirections resolution heightfieldAngle includeXDirections
     d mode =
     (if mode = OPENGL then Inl NotSupported
      else
        ebind (computeVisibilityProjectionRay lib asserts mesh nDirections heightfieldAngle
                 includeXDirections (minExtremes d) (maxExtremes d) mode)
          (\<lambda>(dirs, angs, vis).
        let d1 = d\<lparr>directions := dirs, angles := angs, visibility := vis\<rparr> in
        Inr (d1\<lparr>nonVisibleFaces := detectNonVisibleFaces (visibility d1) (nonVisibleFaces d1)\<rparr>)))"

text \<open>
  The last loop of the older \<^verbatim>\<open>FourAxisFabrication::checkVisibilityAllPlanes\<close>, which
  has no detector: a face that no direction sees is given to the last direction.
\<close>

fun forceLastDirection :: "array2d \<Rightarrow> nat list \<Rightarrow> error + array2d" where
  "forceLastDirection vis [] = Inr vis"
| "forceLastDirection vis (j # rest) =
     (if \<not> foundVisible vis j [0..<sizeX vis]
      then (if sizeX vis = 0 then Inl OutOfBounds
            else ebind (aset vis (sizeX vis - 1) j 1) (\<lambda>vis'. forceLastDirection vis' rest))
      else forceLastDirection vis rest)"

section \<open>Predicates of the statements\<close>

text \<open>
  The invariant of a mesh that the mesh class maintains: one stored normal a face,
  faces over vertices of the mesh, and a bounding box that holds the vertices.
\<close>

definition meshInvariant :: "eigenMesh \<Rightarrow> bool" where
  "meshInvariant m =
     (length (faceNormals m) = length (faces m) \<and>
      list_all (\<lambda>(a, b, c). a < length (vertices m) \<and> b < length (vertices m) \<and>
                  c < length (vertices m)) (faces m) \<and>
      list_all (\<lambda>v. bbMinZ m \<le> vz v \<and> vz v \<le> bbMaxZ m) (vertices m))"

text \<open>
  The heightfield test of the visibility check on the stored normal of a face:
  \<^verbatim>\<open>zDir.dot(mesh.faceNormal(f)) >= heightFieldLimit\<close>.
\<close>

definition heightfieldOk :: "eigenMesh \<Rightarrow> vec3 \<Rightarrow> real \<Rightarrow> nat \<Rightarrow> bool" where
  "heightfieldOk mesh zDir heightFieldLimit f =
     (vdot zDir (faceNormals mesh ! f) \<ge> heightFieldLimit)"

text \<open>
  \<open>writesOnly vis vis' allowed\<close>: \<open>vis'\<close> has the sizes of \<open>vis\<close>, and an entry of \<open>vis'\<close>
  that is not the entry of \<open>vis\<close> is 1 and is allowed. \<open>rayAllowed\<close> are the entries
  that a check of a direction and its opposite may set.
\<close>

definition writesOnly :: "array2d \<Rightarrow> array2d \<Rightarrow> (nat \<Rightarrow> nat \<Rightarrow> bool) \<Rightarrow> bool" where
  "writesOnly vis vis' allowed =
     (sizeX vis' = sizeX vis \<and> sizeY vis' = sizeY vis \<and>
      (\<forall>i j. cells vis' i j = cells vis i j \<or> cells vis' i j = 1 \<and> allowed i j))"

definition rayAllowed :: "eigenMesh \<Rightarrow> nat \<Rightarrow> int \<Rightarrow> real \<Rightarrow> nat \<Rightarrow> nat \<Rightarrow> bool" where
  "rayAllowed mesh directionIndex oppositeDirectionIndex limit i j =
     (i = directionIndex \<and> heightfieldOk mesh zDirMax limit j \<or>
      0 \<le> oppositeDirectionIndex \<and> i = nat oppositeDirectionIndex \<and>
      heightfieldOk mesh zDirMin limit j)"

text \<open>
  The mesh as the check of the \<open>k\<close>-th rotational direction finds it, rotated \<open>k\<close> times
  by the step angle, and the heightfield test of the first \<open>k\<close> rotational directions
  and their opposites on it: direction \<open>d\<close> below \<open>halfNDirections\<close> tests the normal
  against \<open>+z\<close>, direction \<open>halfNDirections + d\<close> tests it against \<open>-z\<close>.
\<close>

definition rotatedBy :: "geometry \<Rightarrow> nat \<Rightarrow> eigenMesh \<Rightarrow> nat \<Rightarrow> eigenMesh" where
  "rotatedBy lib halfNDirections mesh k =
     ((rotateMesh lib xAxis (- (pi / real halfNDirections))) ^^ k) mesh"

definition rotationalOk ::
  "geometry \<Rightarrow> eigenMesh \<Rightarrow> nat \<Rightarrow> real \<Rightarrow> nat \<Rightarrow> nat \<Rightarrow> nat \<Rightarrow> bool" where
  "rotationalOk lib mesh halfNDirections limit k d f =
     (d < k \<and> heightfieldOk (rotatedBy lib halfNDirections mesh d) zDirMax limit f \<or>
      halfNDirections \<le> d \<and> d - halfNDirections < k \<and>
      heightfieldOk (rotatedBy lib halfNDirections mesh (d - halfNDirections)) zDirMin limit f)"

text \<open>The rows of a visibility matrix as lists.\<close>

definition rowsOf :: "array2d \<Rightarrow> int list list" where
  "rowsOf vis = map (\<lambda>i. map (cells vis i) [0..<sizeY vis]) [0..<sizeX vis]"

section \<open>Concrete inputs\<close>

text \<open>
  The normal of the geometry library, for the concrete runs below: the normalised cross
  product of two edges of the triangle.
\<close>

fun vcross :: "vec3 \<Rightarrow> vec3 \<Rightarrow> vec3" where
  "vcross (a, b, c) (d, e, f) = (b * f - c * e, c * d - a * f, a * e - b * d)"

definition unitNormal :: "vec3 \<Rightarrow> vec3 \<Rightarrow> vec3 \<Rightarrow> vec3" where
  "unitNormal p1 p2 p3 =
     (let n = vcross (vsub p2 p1) (vsub p3 p1) in vdiv n (sqrt (vdot n n)))"

text \<open>
  A mesh of one triangle in the plane \<open>z = 0\<close>, smoothed from the original
  \<open>triOriginal\<close>, with the adjacencies of its three vertices. \<open>triData\<close> associates the
  face with the direction \<open>(0, 0, 1)\<close> of its normal, \<open>triDataOpposite\<close> with the
  direction \<open>(0, 0, -1)\<close>, from which no move of a vertex in the plane is valid.
\<close>

definition triMesh :: eigenMesh where
  "triMesh = \<lparr>vertices = [(0, 0, 0), (2, 0, 0), (0, 2, 0)], faces = [(0, 1, 2)],
     faceNormals = [(0, 0, 1)], bbMinZ = 0, bbMaxZ = 0\<rparr>"

definition triOriginal :: eigenMesh where
  "triOriginal = \<lparr>vertices = [(0, 0, 0), (3, 0, 0), (0, 3, 0)], faces = [(0, 1, 2)],
     faceNormals = [(0, 0, 1)], bbMinZ = 0, bbMaxZ = 0\<rparr>"

definition triDcs :: "vec3 list" where
  "triDcs = [(- 3 / 2, - 3 / 2, 0), (3, - 3 / 2, 0), (- 3 / 2, 3, 0)]"

definition triVV :: "nat list list" where
  "triVV = [[1, 2], [0, 2], [0, 1]]"

definition triVF :: "nat list list" where
  "triVF = [[0], [0], [0]]"

definition triVisibility :: array2d where
  "triVisibility = \<lparr>sizeX = 4, sizeY = 1, cells = (\<lambda>i j. if i = 0 \<and> j = 0 then 1 else 0)\<rparr>"

definition triData :: data where
  "triData = emptyData\<lparr>directions := [(0, 0, 1), (0, 0, - 1), (- 1, 0, 0), (1, 0, 0)],
     visibility := triVisibility, association := [0]\<rparr>"

definition triDataOpposite :: data where
  "triDataOpposite = triData\<lparr>association := [1]\<rparr>"

text \<open>
  Three faces of a box along the x axis: the cap at \<open>x = 0\<close> with normal \<open>(-1, 0, 0)\<close>,
  a side face in the plane \<open>y = 1\<close> with normal \<open>(0, 1, 0)\<close>, and the cap at \<open>x = 1\<close>
  with normal \<open>(1, 0, 0)\<close>.
\<close>

definition boxMesh :: eigenMesh where
  "boxMesh =
     \<lparr>vertices = [(0, 0, 0), (0, 0, 1), (0, 1, 0), (0, 1, 1), (1, 1, 0), (1, 0, 0), (1, 0, 1)],
      faces = [(0, 1, 2), (2, 3, 4), (5, 4, 6)],
      faceNormals = [(- 1, 0, 0), (0, 1, 0), (1, 0, 0)], bbMinZ = 0, bbMaxZ = 1\<rparr>"

text \<open>
  A floor, a shelf and a ceiling: a triangle in the plane \<open>z = 0\<close> and a congruent one
  right above it in the plane \<open>z = 1/2\<close>, both with normal \<open>(0, 0, 1)\<close>, and a third
  above them in the plane \<open>z = 1\<close> with normal \<open>(0, 0, -1)\<close>. The segment through any of
  the three barycenters intersects the three faces, and the projections of the faces
  overlap. \<open>stackLib\<close> is a geometry library as far as this mesh needs it; the
  rotations about the x axis are \<open>rotateAboutX\<close>.
\<close>

definition stackMesh :: eigenMesh where
  "stackMesh =
     \<lparr>vertices = [(0, 0, 0), (1, 0, 0), (0, 1, 0),
                  (0, 0, 1 / 2), (1, 0, 1 / 2), (0, 1, 1 / 2),
                  (0, 0, 1), (0, 1, 1), (1, 0, 1)],
      faces = [(0, 1, 2), (3, 4, 5), (6, 7, 8)],
      faceNormals = [(0, 0, 1), (0, 0, 1), (0, 0, - 1)], bbMinZ = 0, bbMaxZ = 1\<rparr>"

fun rotateAboutX :: "real \<Rightarrow> vec3 \<Rightarrow> vec3" where
  "rotateAboutX a (x, y, z) = (x, y * cos a - z * sin a, y * sin a + z * cos a)"

definition stackLib :: geometry where
  "stackLib =
     \<lparr>intersectedFaces = (\<lambda>mesh p q. [0, 1, 2]),
      sortTriangle = (\<lambda>t. t),
      overlapCheck = (\<lambda>tree t. tree \<noteq> []),
      rotateMesh = (\<lambda>axis a mesh.
         mesh\<lparr>vertices := map (rotateAboutX a) (vertices mesh),
              faceNormals := map (rotateAboutX a) (faceNormals mesh),
              bbMinZ := Min (set (map (\<lambda>v. vz (rotateAboutX a v)) (vertices mesh))),
              bbMaxZ := Max (set (map (\<lambda>v. vz (rotateAboutX a v)) (vertices mesh)))\<rparr>),
      rotateVec = (\<lambda>axis a v. rotateAboutX a v)\<rparr>"

text \<open>
  The directions and the visibility that the check of the stack gives for two rotational
  directions with the floor as the only min extreme (\<open>stackVisibility\<close>) and with no
  extreme face (\<open>shelfVisibility\<close>). \<open>ceilingLib\<close> is the library for the mesh of one
  triangle, where every segment intersects the only face.
\<close>

definition stackDirections :: "vec3 list" where
  "stackDirections = [(0, 0, 1), (0, 0, - 1), (- 1, 0, 0), (1, 0, 0)]"

definition stackVisibility :: array2d where
  "stackVisibility =
     \<lparr>sizeX = 4, sizeY = 3,
      cells = (\<lambda>i j. 0)(0 := (\<lambda>j. 0)(1 := 1), 1 := (\<lambda>j. 0)(2 := 1), 2 := (\<lambda>j. 0)(0 := 1))\<rparr>"

definition shelfVisibility :: array2d where
  "shelfVisibility =
     \<lparr>sizeX = 4, sizeY = 3,
      cells = (\<lambda>i j. 0)(0 := (\<lambda>j. 0)(1 := 1), 1 := (\<lambda>j. 0)(2 := 1))\<rparr>"

definition ceilingLib :: geometry where
  "ceilingLib = stackLib\<lparr>intersectedFaces := (\<lambda>mesh p q. [0])\<rparr>"

text \<open>
  The sweep as the specification words it: every target point is computed from the mesh
  as it was at the start of the sweep, and the accepted moves are committed together at
  its end.
\<close>

definition simultaneousSweep ::
  "(vec3 \<Rightarrow> vec3 \<Rightarrow> vec3 \<Rightarrow> vec3) \<Rightarrow> bool \<Rightarrow> eigenMesh \<Rightarrow> vec3 list \<Rightarrow> nat list list \<Rightarrow>
   nat list list \<Rightarrow> data \<Rightarrow> real \<Rightarrow> error + (eigenMesh \<times> bool)" where
  "simultaneousSweep normal asserts targetMesh differentialCoordinates
     vertexVertexAdjacencies vertexFaceAdjacencies d heightfieldAngle =
     ebind (emap (\<lambda>vId. ebind (restoreVertex normal asserts differentialCoordinates
                                 vertexVertexAdjacencies vertexFaceAdjacencies d
                                 heightfieldAngle targetMesh vId)
                          (\<lambda>(m, moved). ebind (getVertex m vId) (\<lambda>p. Inr (p, moved))))
             [0..<getNumberVertices targetMesh])
       (\<lambda>results. Inr (targetMesh\<lparr>vertices := map fst results\<rparr>, list_ex snd results))"

text \<open>
  A visibility recheck whose new visibility sees every face from every direction, and a
  \<open>data\<close> in which the only face was non-visible before the restoration.
\<close>

definition allVisible :: "eigenMesh \<Rightarrow> nat \<Rightarrow> bool \<Rightarrow> data \<Rightarrow> real \<Rightarrow> checkMode \<Rightarrow> error + data" where
  "allVisible mesh nDirections includeXDirections d heightfieldAngle mode =
     Inr (d\<lparr>visibility := \<lparr>sizeX = 4, sizeY = getNumberFaces mesh, cells = (\<lambda>i j. 1)\<rparr>\<rparr>)"

definition recheckData :: data where
  "recheckData = triData\<lparr>visibility := newArray2d 4 1, nonVisibleFaces := [0],
     restoredMesh := triMesh, restoredMeshAssociation := [0],
     restoredMeshNonVisibleFaces := [0], restoredMeshVisibility := newArray2d 4 1\<rparr>"

section \<open>Properties of the restoration\<close>

lemma ebind_Inr_iff: "ebind r f = Inr y \<longleftrightarrow> (\<exists>v. r = Inr v \<and> f v = Inr y)"
  by (cases r) (simp_all add: ebind_def)

lemma ebind_Inr [simp]: "ebind (Inr v) f = f v"
  by (simp add: ebind_def)

lemma ebind_Inl [simp]: "ebind (Inl e) f = Inl e"
  by (simp add: ebind_def)

lemma restoreIterations_frame:
  "restoreIterations normal asserts dcs vva vfa angle i d = Inr d' \<Longrightarrow>
   association d' = association d \<and> visibility d' = visibility d \<and>
   nonVisibleFaces d' = nonVisibleFaces d"
proof (induction i arbitrary: d)
  case 0
  then show ?case by simp
next
  case (Suc i)
  from Suc.prems obtain targetMesh where
    step: "restoreIterations normal asserts dcs vva vfa angle i (d\<lparr>restoredMesh := targetMesh\<rparr>) = Inr d'"
    by (auto simp: ebind_Inr_iff)
  from Suc.IH [OF step] show ?case by simp
qed

lemma binarySearch_result:
  "binarySearch valid currentPoint targetPoint count = Inr (candidate, count') \<Longrightarrow>
   count \<le> BINARY_SEARCH_ITERATIONS \<Longrightarrow>
   count \<le> count' \<and> count' \<le> BINARY_SEARCH_ITERATIONS \<and>
   candidate = (halve currentPoint ^^ (count' - count)) targetPoint \<and>
   (\<forall>k < count' - count. valid ((halve currentPoint ^^ k) targetPoint) = Inr False) \<and>
   (valid candidate = Inr True \<or>
    valid candidate = Inr False \<and> count' = BINARY_SEARCH_ITERATIONS)"
proof (induction valid currentPoint targetPoint count rule: binarySearch.induct)
  case (1 valid currentPoint targetPoint count)
  let ?h = "halve currentPoint"
  from "1.prems"(1) obtain ok where ok: "valid targetPoint = Inr ok"
    by (subst (asm) binarySearch.simps) (auto split: sum.splits)
  show ?case
  proof (cases "\<not> ok \<and> count < BINARY_SEARCH_ITERATIONS")
    case True
    with ok "1.prems"(1) have rec:
      "binarySearch valid currentPoint (?h targetPoint) (count + 1) = Inr (candidate, count')"
      by (subst (asm) binarySearch.simps) simp
    from True have le: "count + 1 \<le> BINARY_SEARCH_ITERATIONS" by simp
    note IH = "1.IH" [OF ok True rec le]
    from IH have c: "count + 1 \<le> count'" by simp
    then have diff: "count' - count = Suc (count' - (count + 1))" by simp
    have iter: "(?h ^^ (count' - count)) targetPoint = (?h ^^ (count' - (count + 1))) (?h targetPoint)"
      unfolding diff by (simp add: funpow_swap1)
    have inv: "\<forall>k < count' - count. valid ((?h ^^ k) targetPoint) = Inr False"
    proof (intro allI impI)
      fix k assume k: "k < count' - count"
      show "valid ((?h ^^ k) targetPoint) = Inr False"
      proof (cases k)
        case 0
        with ok True show ?thesis by simp
      next
        case (Suc j)
        with k have "j < count' - (count + 1)" by simp
        with IH have "valid ((?h ^^ j) (?h targetPoint)) = Inr False" by blast
        with Suc show ?thesis by (simp add: funpow_swap1)
      qed
    qed
    from IH iter inv c show ?thesis by auto
  next
    case False
    with ok "1.prems"(1) have res: "candidate = targetPoint" "count' = count"
      by (subst (asm) binarySearch.simps, simp)+
    from False ok res "1.prems"(2) show ?thesis by (cases ok) auto
  qed
qed

text \<open>
  The search returns whenever the validity test does: no run of it is unbounded.
\<close>

lemma binarySearch_returns:
  "\<forall>p. \<exists>ok. valid p = Inr ok \<Longrightarrow>
   \<exists>candidate count'. binarySearch valid currentPoint targetPoint count = Inr (candidate, count')"
proof (induction valid currentPoint targetPoint count rule: binarySearch.induct)
  case (1 valid currentPoint targetPoint count)
  from "1.prems" obtain ok where ok: "valid targetPoint = Inr ok" by blast
  show ?case
  proof (cases "\<not> ok \<and> count < BINARY_SEARCH_ITERATIONS")
    case True
    from ok True have step:
      "binarySearch valid currentPoint targetPoint count =
       binarySearch valid currentPoint (halve currentPoint targetPoint) (count + 1)"
      by (subst binarySearch.simps) (simp del: binarySearch.simps)
    from "1.IH" [OF ok True "1.prems"] show ?thesis unfolding step .
  next
    case False
    with ok have "binarySearch valid currentPoint targetPoint count = Inr (targetPoint, count)"
      by (subst binarySearch.simps) (auto simp del: binarySearch.simps)
    then show ?thesis by blast
  qed
qed

lemma restoreVertex_shape:
  assumes "restoreVertex normal asserts dcs vva vfa d angle m vId = Inr (m', moved)"
  shows "vId < length (vertices m) \<and> (\<exists>p. m' = m\<lparr>vertices := (vertices m)[vId := p]\<rparr>)"
proof -
  from assms obtain currentPoint where cur: "getVertex m vId = Inr currentPoint"
    by (auto simp: restoreVertex_def ebind_Inr_iff)
  then have lt: "vId < length (vertices m)"
    by (simp add: getVertex_def idx_def split: if_splits)
  from assms have "m' = m \<or> (\<exists>p. m' = setVertex m vId p)"
    by (auto simp: restoreVertex_def ebind_Inr_iff split: if_splits)
  then have "\<exists>p. m' = m\<lparr>vertices := (vertices m)[vId := p]\<rparr>"
  proof
    assume "m' = m"
    then have "m' = m\<lparr>vertices := (vertices m)[vId := vertices m ! vId]\<rparr>" by simp
    then show ?thesis ..
  next
    assume "\<exists>p. m' = setVertex m vId p"
    then show ?thesis by (simp add: setVertex_def)
  qed
  with lt show ?thesis ..
qed

lemma restoreSweep_append:
  "restoreSweep normal asserts dcs vva vfa d angle (xs @ ys) m b =
   ebind (restoreSweep normal asserts dcs vva vfa d angle xs m b)
     (\<lambda>(m1, b1). restoreSweep normal asserts dcs vva vfa d angle ys m1 b1)"
proof (induction xs arbitrary: m b)
  case Nil
  show ?case by simp
next
  case (Cons x xs)
  show ?case
  proof (cases "restoreVertex normal asserts dcs vva vfa d angle m x")
    case (Inl e)
    then show ?thesis by simp
  next
    case (Inr r)
    then show ?thesis by (cases r) (simp add: Cons.IH)
  qed
qed

lemma restoreSweep_shape:
  "restoreSweep normal asserts dcs vva vfa d angle vIds m b = Inr (m', b') \<Longrightarrow>
   \<exists>vs. m' = m\<lparr>vertices := vs\<rparr> \<and> length vs = length (vertices m) \<and>
        (\<forall>u. u \<notin> set vIds \<longrightarrow> vs ! u = vertices m ! u)"
proof (induction vIds arbitrary: m b)
  case Nil
  then have "m' = m\<lparr>vertices := vertices m\<rparr> \<and> length (vertices m) = length (vertices m) \<and>
     (\<forall>u. u \<notin> set [] \<longrightarrow> vertices m ! u = vertices m ! u)" by simp
  then show ?case by (rule exI)
next
  case (Cons x xs)
  from Cons.prems obtain m1 b1 where
    step: "restoreVertex normal asserts dcs vva vfa d angle m x = Inr (m1, b1)" and
    rest: "restoreSweep normal asserts dcs vva vfa d angle xs m1 (b \<or> b1) = Inr (m', b')"
    by (auto simp: ebind_Inr_iff)
  from restoreVertex_shape [OF step] obtain p where
    m1: "m1 = m\<lparr>vertices := (vertices m)[x := p]\<rparr>" by blast
  from Cons.IH [OF rest] obtain vs where
    vs: "m' = m1\<lparr>vertices := vs\<rparr>" "length vs = length (vertices m1)"
        "\<forall>u. u \<notin> set xs \<longrightarrow> vs ! u = vertices m1 ! u" by blast
  from vs m1 have "m' = m\<lparr>vertices := vs\<rparr>" "length vs = length (vertices m)"
    "\<forall>u. u \<notin> set (x # xs) \<longrightarrow> vs ! u = vertices m ! u"
    by auto
  then show ?case by blast
qed

lemma upt_split_at: "v < n \<Longrightarrow> [0..<n] = [0..<v] @ [v] @ [Suc v..<n]"
  by (metis append_Cons append_Nil le0 upt_add_eq_append upt_conv_Cons
        le_add_diff_inverse less_imp_le_nat)

lemma restoreSweep_at:
  assumes sweep: "restoreSweep normal asserts dcs vva vfa d angle [0..<n] m False = Inr (m', b')"
    and n: "n = length (vertices m)" and v: "v < n"
  shows "\<exists>m1 b1 moved.
           restoreSweep normal asserts dcs vva vfa d angle [0..<v] m False = Inr (m1, b1) \<and>
           m1 = m\<lparr>vertices := take v (vertices m') @ drop v (vertices m)\<rparr> \<and>
           restoreVertex normal asserts dcs vva vfa d angle m1 v =
             Inr (m\<lparr>vertices := take (Suc v) (vertices m') @ drop (Suc v) (vertices m)\<rparr>, moved)"
proof -
  note split = upt_split_at [OF v]
  from sweep obtain m1 b1 where
    s1: "restoreSweep normal asserts dcs vva vfa d angle [0..<v] m False = Inr (m1, b1)" and
    s2: "restoreSweep normal asserts dcs vva vfa d angle ([v] @ [Suc v..<n]) m1 b1 = Inr (m', b')"
    unfolding split by (subst (asm) restoreSweep_append) (auto simp: ebind_Inr_iff)
  from s2 obtain m2 bv where
    step: "restoreVertex normal asserts dcs vva vfa d angle m1 v = Inr (m2, bv)" and
    s3: "restoreSweep normal asserts dcs vva vfa d angle [Suc v..<n] m2 (b1 \<or> bv) = Inr (m', b')"
    by (auto simp: ebind_Inr_iff)
  from restoreSweep_shape [OF s1] obtain vs1 where
    vs1: "m1 = m\<lparr>vertices := vs1\<rparr>" "length vs1 = length (vertices m)"
         "\<forall>u. u \<notin> set [0..<v] \<longrightarrow> vs1 ! u = vertices m ! u" by blast
  from restoreVertex_shape [OF step] obtain p where
    m2: "m2 = m1\<lparr>vertices := (vertices m1)[v := p]\<rparr>" by blast
  from restoreSweep_shape [OF s3] obtain vs' where
    vs': "m' = m2\<lparr>vertices := vs'\<rparr>" "length vs' = length (vertices m2)"
         "\<forall>u. u \<notin> set [Suc v..<n] \<longrightarrow> vs' ! u = vertices m2 ! u" by blast
  from vs1 m2 vs' have len: "length vs' = n" "length vs1 = n" and mv: "vertices m' = vs'"
    using n by auto
  have e1: "vs1 = take v vs' @ drop v (vertices m)"
  proof (rule nth_equalityI)
    show "length vs1 = length (take v vs' @ drop v (vertices m))"
      using len n v by simp
  next
    fix i assume "i < length vs1"
    with len have i: "i < n" by simp
    show "vs1 ! i = (take v vs' @ drop v (vertices m)) ! i"
    proof (cases "i < v")
      case True
      with vs'(3) m2 vs1(1) have "vs' ! i = vs1 ! i" by simp
      with True len v show ?thesis by (simp add: nth_append)
    next
      case False
      with vs1(3) have "vs1 ! i = vertices m ! i" by simp
      with False len v n i show ?thesis by (simp add: nth_append)
    qed
  qed
  have e2: "vs1[v := p] = take (Suc v) vs' @ drop (Suc v) (vertices m)"
  proof (rule nth_equalityI)
    show "length (vs1[v := p]) = length (take (Suc v) vs' @ drop (Suc v) (vertices m))"
      using len n v by simp
  next
    fix i assume "i < length (vs1[v := p])"
    with len have i: "i < n" by simp
    show "vs1[v := p] ! i = (take (Suc v) vs' @ drop (Suc v) (vertices m)) ! i"
    proof (cases "i \<le> v")
      case True
      with vs'(3) m2 vs1(1) have "vs' ! i = vs1[v := p] ! i" by simp
      with True len v show ?thesis by (simp add: nth_append)
    next
      case False
      with vs1(3) have "vs1 ! i = vertices m ! i" by simp
      with False len v n i show ?thesis by (simp add: nth_append)
    qed
  qed
  from s1 step vs1(1) m2 e1 e2 mv show ?thesis by auto
qed

lemma unitNormal_planar:
  "unitNormal (x1, y1, 0) (x2, y2, 0) (x3, y3, 0) =
   (0, 0, sgn ((x2 - x1) * (y3 - y1) - (y2 - y1) * (x3 - x1)))"
proof -
  define c where "c = (x2 - x1) * (y3 - y1) - (y2 - y1) * (x3 - x1)"
  have "unitNormal (x1, y1, 0) (x2, y2, 0) (x3, y3, 0) = (0, 0, c / sqrt (c * c))"
    by (simp add: unitNormal_def Let_def c_def)
  moreover have "c / sqrt (c * c) = sgn c"
    by (simp add: real_sgn_eq)
  ultimately show ?thesis by (simp add: c_def)
qed

lemmas restore_defs = restoreFrequenciesValidHeightfields_def restoreVertex_def
  getTargetPoint_def isHeightFieldValid_def movedTriangle_def getVertex_def getFace_def
  setVertex_def idx_def vectorAt_def getNumberVertices_def getNumberFaces_def halve_def
  BINARY_SEARCH_ITERATIONS_def

lemmas tri_defs = triMesh_def triOriginal_def triDcs_def triVV_def triVF_def triData_def
  triDataOpposite_def triVisibility_def emptyData_def

lemma tri_sweep:
  "restoreFrequenciesValidHeightfields unitNormal False triMesh triDcs triVV triVF triData (pi / 2) =
   Inr (triMesh\<lparr>vertices := [(- 1 / 2, - 1 / 2, 0), (11 / 4, - 3 / 4, 0), (- 3 / 8, 19 / 8, 0)]\<rparr>,
        True)"
  by (simp add: restore_defs tri_defs unitNormal_planar)

lemma tri_sweep_opposite:
  "restoreFrequenciesValidHeightfields unitNormal False triMesh triDcs triVV triVF
     triDataOpposite (pi / 2) = Inr (triMesh, False)"
  by (simp add: restore_defs tri_defs unitNormal_planar)

lemma tri_simultaneous:
  "simultaneousSweep unitNormal False triMesh triDcs triVV triVF triData (pi / 2) =
   Inr (triMesh\<lparr>vertices := [(- 1 / 2, - 1 / 2, 0), (3, - 1 / 2, 0), (- 1 / 2, 3, 0)]\<rparr>, True)"
  by (simp add: simultaneousSweep_def restore_defs tri_defs unitNormal_planar)

lemma tri_sweep_reversed:
  "restoreSweep unitNormal False triDcs triVV triVF triData (pi / 2) [2, 1, 0] triMesh False =
   Inr (triMesh\<lparr>vertices := [(- 3 / 8, 0, 0), (11 / 4, 0, 0), (- 1 / 2, 3, 0)]\<rparr>, True)"
  by (simp add: restore_defs tri_defs unitNormal_planar)

lemma tri_differential:
  "computeDifferentialCoordinates triOriginal triVV = Inr triDcs"
  by (simp add: computeDifferentialCoordinates_def differentialCoordinate_def restore_defs tri_defs)

text \<open>
  Claim C8. Whenever \<open>restoreFrequencies\<close> returns, the association, the visibility matrix
  and the non-visible set it was given are unchanged in the data it returns, and the
  association, visibility and non-visible set of the restored mesh are equal to them:
  restoration reassigns no face.
\<close>

theorem restoreFrequencies_frame:
  assumes "restoreFrequencies normal vvAdj vfAdj ffAdj updateNormalsAndBox asserts
             iterations heightfieldAngle originalMesh smoothedMesh d = Inr d'"
  shows "association d' = association d \<and> visibility d' = visibility d \<and>
         nonVisibleFaces d' = nonVisibleFaces d \<and>
         restoredMeshAssociation d' = association d \<and>
         restoredMeshVisibility d' = visibility d \<and>
         restoredMeshNonVisibleFaces d' = nonVisibleFaces d"
proof -
  from assms obtain dcs d1 where
    it: "restoreIterations normal asserts dcs (vvAdj originalMesh) (vfAdj originalMesh)
           heightfieldAngle iterations (d\<lparr>restoredMesh := smoothedMesh\<rparr>) = Inr d1"
    and d': "d' = (d1\<lparr>restoredMesh := updateNormalsAndBox (restoredMesh d1)\<rparr>)
               \<lparr>restoredMeshAssociation := association d1,
                restoredMeshNonVisibleFaces := nonVisibleFaces d1,
                restoredMeshVisibility := visibility d1\<rparr>"
    by (auto simp: restoreFrequencies_def Let_def ebind_Inr_iff split: if_splits)
  from restoreIterations_frame [OF it] d' show ?thesis by simp
qed

lemma tri_restoreFrequencies:
  "restoreFrequencies unitNormal (\<lambda>m. triVV) (\<lambda>m. triVF) (\<lambda>m. [[]]) (\<lambda>m. m) True 1 (pi / 2)
     triOriginal triMesh triData =
   Inr (triData\<lparr>restoredMesh :=
           triMesh\<lparr>vertices := [(- 1 / 2, - 1 / 2, 0), (11 / 4, - 3 / 4, 0), (- 3 / 8, 19 / 8, 0)]\<rparr>,
         restoredMeshAssociation := [0], restoredMeshNonVisibleFaces := [],
         restoredMeshVisibility := triVisibility\<rparr>)"
  by (simp add: restoreFrequencies_def computeDifferentialCoordinates_def
        differentialCoordinate_def restore_defs tri_defs unitNormal_planar)


lemma sweep_length:
  assumes "restoreFrequenciesValidHeightfields normal asserts m dcs vva vfa d angle = Inr (m', moved)"
  shows "length (vertices m') = length (vertices m)"
  using restoreSweep_shape [OF assms [unfolded restoreFrequenciesValidHeightfields_def]]
  by auto

text \<open>
  Claim C6. In a sweep that returns, when the turn of vertex \<open>v\<close> comes (the vertices
  before it done, \<open>v\<close> still where it was before the sweep) its binary search returns
  after \<open>count\<close> halvings with \<open>count\<close> at most \<open>BINARY_SEARCH_ITERATIONS\<close>, which is 10; a
  last candidate that is still invalid means the bound was reached, and when the bound is
  reached the vertex has, after the sweep, the position it had before it.
\<close>

theorem binary_search_bounded:
  assumes sweep: "restoreFrequenciesValidHeightfields normal asserts m dcs vva vfa d angle =
                    Inr (m', moved)"
    and v: "v < getNumberVertices m"
  shows "\<exists>m1 b1 targetPoint candidate count.
           restoreSweep normal asserts dcs vva vfa d angle [0..<v] m False = Inr (m1, b1) \<and>
           getVertex m1 v = Inr (vertices m ! v) \<and>
           getTargetPoint m1 dcs v vva = Inr targetPoint \<and>
           binarySearch (\<lambda>p. isHeightFieldValid normal asserts m1 d v p vfa angle)
             (vertices m ! v) targetPoint 0 = Inr (candidate, count) \<and>
           count \<le> BINARY_SEARCH_ITERATIONS \<and>
           candidate = (halve (vertices m ! v) ^^ count) targetPoint \<and>
           (isHeightFieldValid normal asserts m1 d v candidate vfa angle = Inr False
              \<longrightarrow> count = BINARY_SEARCH_ITERATIONS) \<and>
           (count = BINARY_SEARCH_ITERATIONS \<longrightarrow> vertices m' ! v = vertices m ! v)"
proof -
  let ?vs = "vertices m" and ?vs' = "vertices m'"
  have len: "length ?vs' = length ?vs" by (rule sweep_length [OF sweep])
  from v have v': "v < length ?vs" by (simp add: getNumberVertices_def)
  from restoreSweep_at [OF sweep [unfolded restoreFrequenciesValidHeightfields_def getNumberVertices_def] refl v']
  obtain m1 b1 bv where
    s1: "restoreSweep normal asserts dcs vva vfa d angle [0..<v] m False = Inr (m1, b1)" and
    m1: "m1 = m\<lparr>vertices := take v ?vs' @ drop v ?vs\<rparr>" and
    step: "restoreVertex normal asserts dcs vva vfa d angle m1 v =
             Inr (m\<lparr>vertices := take (Suc v) ?vs' @ drop (Suc v) ?vs\<rparr>, bv)"
    by blast
  have at_v: "(take v ?vs' @ drop v ?vs) ! v = ?vs ! v"
    using v' len by (simp add: nth_append)
  have cur: "getVertex m1 v = Inr (?vs ! v)"
    using v' len by (simp add: m1 getVertex_def idx_def at_v)
  let ?valid = "\<lambda>p. isHeightFieldValid normal asserts m1 d v p vfa angle"
  from step cur obtain targetPoint candidate count where
    tgt: "getTargetPoint m1 dcs v vva = Inr targetPoint" and
    bs: "binarySearch ?valid (?vs ! v) targetPoint 0 = Inr (candidate, count)" and
    res: "(if count < BINARY_SEARCH_ITERATIONS
           then Inr (setVertex m1 v candidate, True) else Inr (m1, False)) =
          (Inr (m\<lparr>vertices := take (Suc v) ?vs' @ drop (Suc v) ?vs\<rparr>, bv)
             :: error + eigenMesh \<times> bool)"
    by (auto simp: restoreVertex_def ebind_Inr_iff)
  from binarySearch_result [OF bs le0, simplified] have
    bound: "count \<le> BINARY_SEARCH_ITERATIONS" and
    cand: "candidate = (halve (?vs ! v) ^^ count) targetPoint" and
    last: "?valid candidate = Inr True \<or>
           ?valid candidate = Inr False \<and> count = BINARY_SEARCH_ITERATIONS"
    by blast+
  have kept: "?vs' ! v = ?vs ! v" if "count = BINARY_SEARCH_ITERATIONS"
  proof -
    from that res have "m1 = m\<lparr>vertices := take (Suc v) ?vs' @ drop (Suc v) ?vs\<rparr>" by simp
    with m1 have "take v ?vs' @ drop v ?vs = take (Suc v) ?vs' @ drop (Suc v) ?vs"
      by (metis eigenMesh.select_convs(1) eigenMesh.surjective eigenMesh.update_convs(1))
    then have "(take v ?vs' @ drop v ?vs) ! v = (take (Suc v) ?vs' @ drop (Suc v) ?vs) ! v"
      by simp
    with v' len show ?thesis by (simp add: nth_append)
  qed
  from last have "?valid candidate = Inr False \<longrightarrow> count = BINARY_SEARCH_ITERATIONS" by auto
  with s1 cur tgt bs bound cand kept show ?thesis by blast
qed

text \<open>
  Claim C3, as amended. The target point of vertex \<open>v\<close> is computed from the mesh that
  the steps of the vertices before \<open>v\<close> have left: these vertices are at their positions
  of the end of the sweep already, the others at their positions of its start. The move
  of \<open>v\<close> is written to that mesh at once, for the next vertex to read.
\<close>

theorem sweep_in_place:
  assumes sweep: "restoreFrequenciesValidHeightfields normal asserts m dcs vva vfa d angle =
                    Inr (m', moved)"
    and v: "v < getNumberVertices m"
  shows "\<exists>m1 b1 targetPoint moved_v.
           restoreSweep normal asserts dcs vva vfa d angle [0..<v] m False = Inr (m1, b1) \<and>
           vertices m1 = take v (vertices m') @ drop v (vertices m) \<and>
           getTargetPoint m1 dcs v vva = Inr targetPoint \<and>
           restoreVertex normal asserts dcs vva vfa d angle m1 v =
             Inr (m1\<lparr>vertices := (vertices m1)[v := vertices m' ! v]\<rparr>, moved_v)"
proof -
  let ?vs = "vertices m" and ?vs' = "vertices m'"
  have len: "length ?vs' = length ?vs" by (rule sweep_length [OF sweep])
  from v have v': "v < length ?vs" by (simp add: getNumberVertices_def)
  from restoreSweep_at [OF sweep [unfolded restoreFrequenciesValidHeightfields_def getNumberVertices_def] refl v']
  obtain m1 b1 bv where
    s1: "restoreSweep normal asserts dcs vva vfa d angle [0..<v] m False = Inr (m1, b1)" and
    m1: "m1 = m\<lparr>vertices := take v ?vs' @ drop v ?vs\<rparr>" and
    step: "restoreVertex normal asserts dcs vva vfa d angle m1 v =
             Inr (m\<lparr>vertices := take (Suc v) ?vs' @ drop (Suc v) ?vs\<rparr>, bv)"
    by blast
  from step obtain targetPoint where tgt: "getTargetPoint m1 dcs v vva = Inr targetPoint"
    by (auto simp: restoreVertex_def ebind_Inr_iff)
  have "(take v ?vs' @ drop v ?vs)[v := ?vs' ! v] = take (Suc v) ?vs' @ drop (Suc v) ?vs"
  proof (rule nth_equalityI)
    show "length ((take v ?vs' @ drop v ?vs)[v := ?vs' ! v]) =
          length (take (Suc v) ?vs' @ drop (Suc v) ?vs)"
      using v' len by simp
  next
    fix i assume "i < length ((take v ?vs' @ drop v ?vs)[v := ?vs' ! v])"
    with v' len have i: "i < length ?vs" by simp
    consider "i < v" | "i = v" | "v < i" by linarith
    then show "(take v ?vs' @ drop v ?vs)[v := ?vs' ! v] ! i =
               (take (Suc v) ?vs' @ drop (Suc v) ?vs) ! i"
    proof cases
      case 1
      with v' len show ?thesis by (simp add: nth_append)
    next
      case 2
      with v' len show ?thesis by (simp add: nth_append)
    next
      case 3
      with v' len i show ?thesis by (simp add: nth_append)
    qed
  qed
  with m1 have "m\<lparr>vertices := take (Suc v) ?vs' @ drop (Suc v) ?vs\<rparr> =
                m1\<lparr>vertices := (vertices m1)[v := ?vs' ! v]\<rparr>"
    by simp
  with step have r: "restoreVertex normal asserts dcs vva vfa d angle m1 v =
                       Inr (m1\<lparr>vertices := (vertices m1)[v := ?vs' ! v]\<rparr>, bv)"
    by simp
  from m1 have vm1: "vertices m1 = take v ?vs' @ drop v ?vs" by simp
  from s1 vm1 tgt r show ?thesis by blast
qed

text \<open>
  The frame property on one iteration over the one-triangle mesh, in a build with
  assertions.
\<close>

theorem restoreFrequencies_frame_witness:
  "restoreFrequencies unitNormal (\<lambda>m. triVV) (\<lambda>m. triVF) (\<lambda>m. [[]]) (\<lambda>m. m) True 1 (pi / 2)
     triOriginal triMesh triData =
   Inr (triData\<lparr>restoredMesh :=
           triMesh\<lparr>vertices := [(- 1 / 2, - 1 / 2, 0), (11 / 4, - 3 / 4, 0), (- 3 / 8, 19 / 8, 0)]\<rparr>,
         restoredMeshAssociation := [0], restoredMeshNonVisibleFaces := [],
         restoredMeshVisibility := triVisibility\<rparr>) \<and>
   association triData = [0] \<and> visibility triData = triVisibility \<and>
   nonVisibleFaces triData = []"
  using restoreFrequencies_frame [OF tri_restoreFrequencies] tri_restoreFrequencies
  by simp

text \<open>
  The bound on a sweep where every candidate of every vertex is invalid: each search
  stops at the bound and the mesh is left as it was.
\<close>

theorem binary_search_bounded_witness:
  "restoreFrequenciesValidHeightfields unitNormal False triMesh triDcs triVV triVF
     triDataOpposite (pi / 2) = Inr (triMesh, False) \<and>
   1 < getNumberVertices triMesh \<and>
   (\<exists>m1 b1 targetPoint candidate count.
      restoreSweep unitNormal False triDcs triVV triVF triDataOpposite (pi / 2) [0..<1] triMesh False
        = Inr (m1, b1) \<and>
      getVertex m1 1 = Inr (vertices triMesh ! 1) \<and>
      getTargetPoint m1 triDcs 1 triVV = Inr targetPoint \<and>
      binarySearch (\<lambda>p. isHeightFieldValid unitNormal False m1 triDataOpposite 1 p triVF (pi / 2))
        (vertices triMesh ! 1) targetPoint 0 = Inr (candidate, count) \<and>
      count \<le> BINARY_SEARCH_ITERATIONS \<and>
      candidate = (halve (vertices triMesh ! 1) ^^ count) targetPoint \<and>
      (isHeightFieldValid unitNormal False m1 triDataOpposite 1 candidate triVF (pi / 2) = Inr False
         \<longrightarrow> count = BINARY_SEARCH_ITERATIONS) \<and>
      (count = BINARY_SEARCH_ITERATIONS \<longrightarrow> vertices triMesh ! 1 = vertices triMesh ! 1))"
proof -
  have v: "1 < getNumberVertices triMesh"
    by (simp add: triMesh_def getNumberVertices_def)
  from binary_search_bounded [OF tri_sweep_opposite v] tri_sweep_opposite v
  show ?thesis by blast
qed

text \<open>
  The last vertex of the triangle finds the first two at their new positions.
\<close>

theorem sweep_in_place_witness:
  "2 < getNumberVertices triMesh \<and>
   (\<exists>m1 b1 targetPoint moved_v.
      restoreSweep unitNormal False triDcs triVV triVF triData (pi / 2) [0..<2] triMesh False
        = Inr (m1, b1) \<and>
      vertices m1 = [(- 1 / 2, - 1 / 2, 0), (11 / 4, - 3 / 4, 0), (0, 2, 0)] \<and>
      getTargetPoint m1 triDcs 2 triVV = Inr targetPoint \<and>
      restoreVertex unitNormal False triDcs triVV triVF triData (pi / 2) m1 2 =
        Inr (m1\<lparr>vertices := (vertices m1)[2 := (- 3 / 8, 19 / 8, 0)]\<rparr>, moved_v))"
proof -
  have v: "2 < getNumberVertices triMesh"
    by (simp add: triMesh_def getNumberVertices_def)
  from sweep_in_place [OF tri_sweep v] v
  show ?thesis by (simp add: triMesh_def)
qed

text \<open>
  Claim C3 as stated fails on the one-triangle mesh: the sweep of the source and the
  simultaneous sweep of the specification move the second and the third vertex to
  different points, and the sweep in the reverse order of the vertices gives a third
  result.
\<close>

theorem sweep_not_simultaneous:
  "restoreFrequenciesValidHeightfields unitNormal False triMesh triDcs triVV triVF triData (pi / 2) =
     Inr (triMesh\<lparr>vertices := [(- 1 / 2, - 1 / 2, 0), (11 / 4, - 3 / 4, 0), (- 3 / 8, 19 / 8, 0)]\<rparr>,
          True) \<and>
   simultaneousSweep unitNormal False triMesh triDcs triVV triVF triData (pi / 2) =
     Inr (triMesh\<lparr>vertices := [(- 1 / 2, - 1 / 2, 0), (3, - 1 / 2, 0), (- 1 / 2, 3, 0)]\<rparr>, True) \<and>
   restoreSweep unitNormal False triDcs triVV triVF triData (pi / 2) [2, 1, 0] triMesh False =
     Inr (triMesh\<lparr>vertices := [(- 3 / 8, 0, 0), (11 / 4, 0, 0), (- 1 / 2, 3, 0)]\<rparr>, True) \<and>
   restoreFrequenciesValidHeightfields unitNormal False triMesh triDcs triVV triVF triData (pi / 2) \<noteq>
   simultaneousSweep unitNormal False triMesh triDcs triVV triVF triData (pi / 2)"
  unfolding tri_sweep tri_simultaneous tri_sweep_reversed
  by (simp add: triMesh_def)

lemma minimizeNumberPlanes_unavailable: "minimizeNumberPlanes False solver vis = [0..<sizeX vis]"
  by (simp add: minimizeNumberPlanes_def)

lemma minimizeNumberPlanes_throws:
  "solver vis = Throws \<Longrightarrow> minimizeNumberPlanes True solver vis = []"
  by (simp add: minimizeNumberPlanes_def)

text \<open>
  Claim C4. Without the solver in the build every direction survives. With the solver
  in the build and an exception before the solution is read back, no direction survives:
  the list is left empty, where the claim has all directions.
\<close>

theorem minimizer_solver_failure:
  "minimizeNumberPlanes True (\<lambda>vis. Throws) (newArray2d 3 2) = [] \<and>
   minimizeNumberPlanes False (\<lambda>vis. Throws) (newArray2d 3 2) = [0, 1, 2]"
  by (simp add: minimizeNumberPlanes_def newArray2d_def upt_rec)

lemma minus_one_64: "(- 1 :: 64 word) = 18446744073709551615"
  by simp

lemma narrow_max_64: "(ucast (18446744073709551615 :: 64 word) :: 32 word) = 4294967295"
  by simp

lemma noLongerVisible_0_1: "noLongerVisible 0 (Suc 0) = 4294967295"
proof -
  have "(ucast (- 1 :: 64 word) :: 32 word) = 4294967295"
    by (simp only: minus_one_64 narrow_max_64)
  then show ?thesis by (simp add: noLongerVisible_def)
qed

lemma noLongerVisible_no_wrap:
  assumes "b \<le> a" and "a < 2 ^ 32"
  shows "unat (noLongerVisible a b) = a - b"
proof -
  have "unat (of_nat a :: 32 word) = a"
    using assms(2) by (simp add: unat_of_nat)
  then have a: "(ucast (of_nat a :: 32 word) :: 64 word) = of_nat a"
    by (metis of_nat_unat)
  have "(of_nat a :: 64 word) - of_nat b = of_nat (a - b)"
    using assms(1) by simp
  then have eq: "noLongerVisible a b = ucast (of_nat (a - b) :: 64 word)"
    by (simp add: noLongerVisible_def a)
  have small: "a - b < 2 ^ 32" "a - b < 2 ^ 64"
    using assms by simp_all
  have "unat (of_nat (a - b) :: 64 word) = a - b"
    using small by (simp add: unat_of_nat)
  then have "unat (ucast (of_nat (a - b) :: 64 word) :: 32 word) = a - b"
    using small by (simp add: unsigned_ucast_eq take_bit_nat_eq_self)
  with eq show ?thesis by simp
qed

text \<open>
  Claim C5. The returned value is the difference of two sizes, computed on unsigned
  machine integers. It is the count difference when the restored mesh has at least as
  many non-visible faces as there were before; otherwise it wraps. On a mesh of one
  face, non-visible before and visible after, the value is \<open>4294967295\<close>.
\<close>

theorem recheck_count_wraps:
  "checkVisibilityAfterFrequenciesAreRestored allVisible recheckData (pi / 2) PROJECTION =
     Inr (recheckData\<lparr>restoredMeshVisibility := \<lparr>sizeX = 4, sizeY = 1, cells = (\<lambda>i j. 1)\<rparr>,
                       restoredMeshNonVisibleFaces := []\<rparr>, 4294967295) \<and>
   getNumberFaces (restoredMesh recheckData) = 1"
  by (simp add: checkVisibilityAfterFrequenciesAreRestored_def allVisible_def recheckData_def
        tri_defs recheckDirections_def noLongerVisible_0_1 aget_def getNumberFaces_def newArray2d_def)

section \<open>Properties of the extreme faces\<close>

declare walkMin.simps [simp del] walkMax.simps [simp del]

lemma walkMin_takeWhile:
  assumes "\<forall>f \<in> set fs. f < length (faceNormals m)" and "i \<le> length fs"
  shows "walkMin m fs i acc =
         (if \<forall>f \<in> set (drop i fs). vdot (faceNormals m ! f) minusX \<ge> - epsilon
          then Inl OutOfBounds
          else Inr (acc @ takeWhile (\<lambda>f. vdot (faceNormals m ! f) minusX \<ge> - epsilon) (drop i fs)))"
  using assms
proof (induction m fs i acc rule: walkMin.induct)
  case (1 m fs i acc)
  show ?case
  proof (cases "i < length fs")
    case False
    with "1.prems" have "i = length fs" by simp
    then show ?thesis by (subst walkMin.simps) (simp add: idx_def)
  next
    case True
    then have rd: "idx fs i = Inr (fs ! i)" by (simp add: idx_def)
    from True "1.prems" have n: "getFaceNormal m (fs ! i) = Inr (faceNormals m ! (fs ! i))"
      by (simp add: getFaceNormal_def idx_def)
    from True have dr: "drop i fs = fs ! i # drop (Suc i) fs"
      by (simp add: Cons_nth_drop_Suc)
    show ?thesis
    proof (cases "vdot (faceNormals m ! (fs ! i)) minusX \<ge> - epsilon")
      case pass: True
      from True have "i + 1 \<le> length fs" by simp
      from "1.IH" [OF rd n pass "1.prems"(1) this] pass rd n show ?thesis
        by (subst walkMin.simps) (simp add: dr)
    next
      case False
      with rd n show ?thesis
        by (subst walkMin.simps) (simp add: dr)
    qed
  qed
qed

lemma walkMax_takeWhile:
  assumes "\<forall>f \<in> set fs. f < length (faceNormals m)" and "i < length fs"
  shows "walkMax m fs i acc =
         (if \<forall>f \<in> set (take (Suc i) fs). vdot (faceNormals m ! f) plusX \<ge> - epsilon
          then Inl OutOfBounds
          else Inr (acc @ takeWhile (\<lambda>f. vdot (faceNormals m ! f) plusX \<ge> - epsilon)
                           (rev (take (Suc i) fs))))"
  using assms
proof (induction m fs i acc rule: walkMax.induct)
  case (1 m fs i acc)
  from "1.prems" have rd: "idx fs i = Inr (fs ! i)" by (simp add: idx_def)
  from "1.prems" have n: "getFaceNormal m (fs ! i) = Inr (faceNormals m ! (fs ! i))"
    by (simp add: getFaceNormal_def idx_def)
  from "1.prems" have tk: "take (Suc i) fs = take i fs @ [fs ! i]"
    by (simp add: take_Suc_conv_app_nth)
  show ?case
  proof (cases "vdot (faceNormals m ! (fs ! i)) plusX \<ge> - epsilon")
    case False
    with rd n show ?thesis
      by (subst walkMax.simps) (simp add: tk)
  next
    case pass: True
    show ?thesis
    proof (cases "i = 0")
      case True
      from "1.prems" have one: "take (Suc 0) fs = [fs ! 0]"
        by (cases fs) simp_all
      from True pass rd n show ?thesis
        by (subst walkMax.simps) (simp add: one)
    next
      case False
      with "1.prems" have lt: "i - 1 < length fs" by simp
      from False have suc: "Suc (i - 1) = i" by simp
      from "1.IH" [OF rd n pass False "1.prems"(1) lt] pass rd n False show ?thesis
        by (subst walkMax.simps) (simp add: tk suc)
    qed
  qed
qed

lemma vdot_minusX: "vdot n minusX = - vdot n plusX"
  by (cases n) (simp add: minusX_def plusX_def)

lemma set_sortFaces: "set (sortFaces m [0..<n]) = {0..<n}"
  by (simp add: sortFaces_def)

lemma length_sortFaces: "length (sortFaces m fs) = length fs"
  by (simp add: sortFaces_def)

lemma cutExtremes_eq:
  assumes wf: "length (faceNormals m) = getNumberFaces m"
  shows "cutExtremes m =
         (let fIndices = sortFaces m [0..<getNumberFaces m] in
          if (\<forall>f < getNumberFaces m. vdot (faceNormals m ! f) minusX \<ge> - epsilon) \<or>
             (\<forall>f < getNumberFaces m. vdot (faceNormals m ! f) plusX \<ge> - epsilon)
          then Inl OutOfBounds
          else Inr (takeWhile (\<lambda>f. vdot (faceNormals m ! f) minusX \<ge> - epsilon) fIndices,
                    takeWhile (\<lambda>f. vdot (faceNormals m ! f) plusX \<ge> - epsilon) (rev fIndices)))"
proof -
  let ?n = "getNumberFaces m"
  let ?fs = "sortFaces m [0..<?n]"
  have rng: "\<forall>f \<in> set ?fs. f < length (faceNormals m)"
    by (simp add: set_sortFaces wf)
  have A: "(\<forall>f \<in> set ?fs. P f) \<longleftrightarrow> (\<forall>f < ?n. P f)" for P
    by (auto simp: set_sortFaces)
  note wmin = walkMin_takeWhile [OF rng, of 0 "[]", simplified]
  show ?thesis
  proof (cases "?fs = []")
    case True
    then have "?n = 0" using length_sortFaces [of m "[0..<?n]"] by simp
    with True wmin show ?thesis by (simp add: cutExtremes_def Let_def)
  next
    case False
    then have lt: "length ?fs - 1 < length ?fs" by simp
    from False have tk: "take (Suc (length ?fs - 1)) ?fs = ?fs" by simp
    note wmax = walkMax_takeWhile [OF rng lt, of "[]", unfolded tk, simplified]
    from False show ?thesis
      by (simp add: cutExtremes_def Let_def wmin wmax A)
  qed
qed

lemma box_sorted: "sortFaces boxMesh [0..<getNumberFaces boxMesh] = [0, 1, 2]"
  by (simp add: sortFaces_def boxMesh_def getNumberFaces_def centroid_def upt_rec)

lemma box_cutExtremes: "cutExtremes boxMesh = Inr ([0, 1], [2, 1])"
  by (simp add: cutExtremes_def box_sorted Let_def walkMin.simps walkMax.simps)
     (simp add: boxMesh_def idx_def getFaceNormal_def minusX_def plusX_def epsilon_def
        walkMin.simps walkMax.simps)

lemma box_wf: "length (faceNormals boxMesh) = getNumberFaces boxMesh"
  by (simp add: boxMesh_def getNumberFaces_def)

lemma takeWhile_shorter:
  "\<exists>x \<in> set xs. \<not> P x \<Longrightarrow> length (takeWhile P xs) < length xs"
  by (induction xs) auto

text \<open>
  Claim C9. On a mesh with one stored normal a face: when some face fails the test of
  the first loop (its normal has a dot product with \<open>-x\<close> below \<open>-epsilon\<close>) and some face
  fails the test of the second loop (the same with \<open>+x\<close>), \<open>cutExtremes\<close> returns, so every
  read of \<open>fIndices\<close> was within its bounds, and each loop has stopped before the last
  index. Otherwise a loop runs off \<open>fIndices\<close>: the result is the out-of-bounds read.
\<close>

theorem cutExtremes_bounds:
  assumes wf: "length (faceNormals m) = getNumberFaces m"
  shows "((\<exists>f < getNumberFaces m. vdot (faceNormals m ! f) minusX < - epsilon) \<and>
          (\<exists>f < getNumberFaces m. vdot (faceNormals m ! f) plusX < - epsilon)
          \<longrightarrow> (\<exists>minExtreme maxExtreme. cutExtremes m = Inr (minExtreme, maxExtreme) \<and>
                 length minExtreme < getNumberFaces m \<and>
                 length maxExtreme < getNumberFaces m)) \<and>
         (\<not> ((\<exists>f < getNumberFaces m. vdot (faceNormals m ! f) minusX < - epsilon) \<and>
             (\<exists>f < getNumberFaces m. vdot (faceNormals m ! f) plusX < - epsilon))
          \<longrightarrow> cutExtremes m = Inl OutOfBounds)"
proof (intro conjI impI)
  let ?n = "getNumberFaces m"
  let ?fs = "sortFaces m [0..<?n]"
  assume pre: "(\<exists>f < ?n. vdot (faceNormals m ! f) minusX < - epsilon) \<and>
               (\<exists>f < ?n. vdot (faceNormals m ! f) plusX < - epsilon)"
  then have no: "\<not> ((\<forall>f < ?n. vdot (faceNormals m ! f) minusX \<ge> - epsilon) \<or>
                    (\<forall>f < ?n. vdot (faceNormals m ! f) plusX \<ge> - epsilon))"
    by (auto simp: not_le)
  have len: "length ?fs = ?n" by (simp add: length_sortFaces)
  from pre have "\<exists>f \<in> set ?fs. \<not> vdot (faceNormals m ! f) minusX \<ge> - epsilon"
    by (auto simp: set_sortFaces not_le)
  from takeWhile_shorter [OF this] len
  have l1: "length (takeWhile (\<lambda>f. vdot (faceNormals m ! f) minusX \<ge> - epsilon) ?fs) < ?n"
    by simp
  from pre have "\<exists>f \<in> set (rev ?fs). \<not> vdot (faceNormals m ! f) plusX \<ge> - epsilon"
    by (auto simp: set_sortFaces not_le)
  from takeWhile_shorter [OF this] len
  have l2: "length (takeWhile (\<lambda>f. vdot (faceNormals m ! f) plusX \<ge> - epsilon) (rev ?fs)) < ?n"
    by simp
  from no l1 l2 show "\<exists>minExtreme maxExtreme. cutExtremes m = Inr (minExtreme, maxExtreme) \<and>
          length minExtreme < ?n \<and> length maxExtreme < ?n"
    by (simp add: cutExtremes_eq [OF wf] Let_def)
next
  let ?n = "getNumberFaces m"
  assume "\<not> ((\<exists>f < ?n. vdot (faceNormals m ! f) minusX < - epsilon) \<and>
             (\<exists>f < ?n. vdot (faceNormals m ! f) plusX < - epsilon))"
  then have "(\<forall>f < ?n. vdot (faceNormals m ! f) minusX \<ge> - epsilon) \<or>
             (\<forall>f < ?n. vdot (faceNormals m ! f) plusX \<ge> - epsilon)"
    by (meson not_less)
  then show "cutExtremes m = Inl OutOfBounds"
    by (simp add: cutExtremes_eq [OF wf] Let_def)
qed

text \<open>
  The box has a face failing each test and is cut within bounds; the single triangle,
  whose normal is orthogonal to the x axis, passes both tests and is read out of bounds.
\<close>

theorem cutExtremes_bounds_witness:
  "length (faceNormals boxMesh) = getNumberFaces boxMesh \<and>
   0 < getNumberFaces boxMesh \<and> vdot (faceNormals boxMesh ! 2) minusX < - epsilon \<and>
   vdot (faceNormals boxMesh ! 0) plusX < - epsilon \<and>
   cutExtremes boxMesh = Inr ([0, 1], [2, 1]) \<and>
   length (faceNormals triMesh) = getNumberFaces triMesh \<and>
   cutExtremes triMesh = Inl OutOfBounds"
proof -
  have b: "vdot (faceNormals boxMesh ! 2) minusX < - epsilon"
          "vdot (faceNormals boxMesh ! 0) plusX < - epsilon"
          "getNumberFaces boxMesh = 3"
    by (simp_all add: boxMesh_def minusX_def plusX_def epsilon_def getNumberFaces_def)
  have twf: "length (faceNormals triMesh) = getNumberFaces triMesh"
    by (simp add: triMesh_def getNumberFaces_def)
  have t: "\<not> ((\<exists>f < getNumberFaces triMesh. vdot (faceNormals triMesh ! f) minusX < - epsilon) \<and>
              (\<exists>f < getNumberFaces triMesh. vdot (faceNormals triMesh ! f) plusX < - epsilon))"
    by (simp add: triMesh_def minusX_def plusX_def epsilon_def getNumberFaces_def)
  from cutExtremes_bounds [OF twf] t have "cutExtremes triMesh = Inl OutOfBounds"
    by blast
  with b box_wf box_cutExtremes twf show ?thesis by simp
qed

text \<open>
  Claim C7, as amended. The faces are sorted by their centroids, in the lexicographic
  order of the coordinates. The min extremes are the longest prefix of that order of faces
  whose normal has a dot product with the x axis of at most \<open>epsilon\<close>, the max extremes
  the longest prefix of the reversed order of faces where it is at least \<open>-epsilon\<close>: a
  face is added while the dot product is not positive (not negative) beyond the
  tolerance.
\<close>

theorem cutExtremes_tolerance:
  assumes wf: "length (faceNormals m) = getNumberFaces m"
    and run: "cutExtremes m = Inr (minExtreme, maxExtreme)"
  shows "sorted (map (centroid m) (sortFaces m [0..<getNumberFaces m])) \<and>
         set (sortFaces m [0..<getNumberFaces m]) = {0..<getNumberFaces m} \<and>
         minExtreme = takeWhile (\<lambda>f. vdot (faceNormals m ! f) plusX \<le> epsilon)
                        (sortFaces m [0..<getNumberFaces m]) \<and>
         maxExtreme = takeWhile (\<lambda>f. vdot (faceNormals m ! f) plusX \<ge> - epsilon)
                        (rev (sortFaces m [0..<getNumberFaces m])) \<and>
         (\<forall>f \<in> set minExtreme. vdot (faceNormals m ! f) plusX \<le> epsilon) \<and>
         (\<forall>f \<in> set maxExtreme. vdot (faceNormals m ! f) plusX \<ge> - epsilon)"
proof -
  let ?fs = "sortFaces m [0..<getNumberFaces m]"
  have s: "sorted (map (centroid m) ?fs)" by (simp add: sortFaces_def)
  have eq: "(vdot n minusX \<ge> - epsilon) = (vdot n plusX \<le> epsilon)" for n
    by (simp add: vdot_minusX)
  from run have mn: "minExtreme = takeWhile (\<lambda>f. vdot (faceNormals m ! f) plusX \<le> epsilon) ?fs"
    and mx: "maxExtreme = takeWhile (\<lambda>f. vdot (faceNormals m ! f) plusX \<ge> - epsilon) (rev ?fs)"
    by (simp_all add: cutExtremes_eq [OF wf] Let_def eq split: if_splits)
  from mn have p1: "\<forall>f \<in> set minExtreme. vdot (faceNormals m ! f) plusX \<le> epsilon"
    by (auto dest: set_takeWhileD)
  from mx have p2: "\<forall>f \<in> set maxExtreme. vdot (faceNormals m ! f) plusX \<ge> - epsilon"
    by (auto dest: set_takeWhileD)
  from s mn mx p1 p2 show ?thesis by (simp add: set_sortFaces)
qed

theorem cutExtremes_tolerance_witness:
  "length (faceNormals boxMesh) = getNumberFaces boxMesh \<and>
   cutExtremes boxMesh = Inr ([0, 1], [2, 1]) \<and>
   sortFaces boxMesh [0..<getNumberFaces boxMesh] = [0, 1, 2] \<and>
   [0, 1] = takeWhile (\<lambda>f. vdot (faceNormals boxMesh ! f) plusX \<le> epsilon) [0, 1, 2] \<and>
   [2, 1] = takeWhile (\<lambda>f. vdot (faceNormals boxMesh ! f) plusX \<ge> - epsilon) (rev [0, 1, 2])"
proof -
  from cutExtremes_tolerance [OF box_wf box_cutExtremes]
  have "[0, 1] = takeWhile (\<lambda>f. vdot (faceNormals boxMesh ! f) plusX \<le> epsilon)
                   (sortFaces boxMesh [0..<getNumberFaces boxMesh]) \<and>
        [2, 1] = takeWhile (\<lambda>f. vdot (faceNormals boxMesh ! f) plusX \<ge> - epsilon)
                   (rev (sortFaces boxMesh [0..<getNumberFaces boxMesh]))"
    by blast
  then show ?thesis
    unfolding box_sorted using box_wf box_cutExtremes by blast
qed

text \<open>
  Claim C7 as stated fails on the box: its side face, whose normal is orthogonal to the
  x axis (dot product 0, neither negative nor positive), is in both extreme sets.
\<close>

theorem extreme_faces_not_strongly_signed:
  "cutExtremes boxMesh = Inr ([0, 1], [2, 1]) \<and> vdot (faceNormals boxMesh ! 1) plusX = 0"
  by (simp add: box_cutExtremes) (simp add: boxMesh_def plusX_def)

section \<open>Properties of the visibility check\<close>

lemma efold_invariant:
  assumes "efold f xs s = Inr s'" and "P s"
    and "\<And>x s t. x \<in> set xs \<Longrightarrow> P s \<Longrightarrow> f x s = Inr t \<Longrightarrow> P t"
  shows "P s'"
  using assms
proof (induction xs arbitrary: s)
  case Nil
  then show ?case by simp
next
  case (Cons x xs)
  from Cons.prems(1) obtain t where t: "f x s = Inr t" and rest: "efold f xs t = Inr s'"
    by (auto simp: ebind_Inr_iff)
  from Cons.prems(3) [OF _ Cons.prems(2) t] have "P t" by simp
  show ?case
  proof (rule Cons.IH [OF rest \<open>P t\<close>])
    fix y u w assume "y \<in> set xs" "P u" "f y u = Inr w"
    with Cons.prems(3) [of y u w] show "P w" by simp
  qed
qed

lemma efold_total:
  assumes "P s"
    and "\<And>x s. x \<in> set xs \<Longrightarrow> P s \<Longrightarrow> \<exists>t. f x s = Inr t \<and> P t"
  shows "\<exists>s'. efold f xs s = Inr s' \<and> P s'"
  using assms
proof (induction xs arbitrary: s)
  case Nil
  then show ?case by simp
next
  case (Cons x xs)
  from Cons.prems(2) [OF _ Cons.prems(1)] obtain t where t: "f x s = Inr t" "P t"
    by auto
  have "\<exists>s'. efold f xs t = Inr s' \<and> P s'"
  proof (rule Cons.IH [OF t(2)])
    fix y u assume "y \<in> set xs" "P u"
    with Cons.prems(2) [of y u] show "\<exists>t. f y u = Inr t \<and> P t" by simp
  qed
  then obtain s' where "efold f xs t = Inr s' \<and> P s'" by blast
  with t show ?case by simp
qed

lemma efold_append:
  "efold f (xs @ ys) s = ebind (efold f xs s) (efold f ys)"
proof (induction xs arbitrary: s)
  case Nil
  show ?case by simp
next
  case (Cons x xs)
  show ?case by (cases "f x s") (simp_all add: Cons.IH)
qed

lemma aset_Inr:
  "aset a i j v = Inr a' \<Longrightarrow>
   i < sizeX a \<and> j < sizeY a \<and> sizeX a' = sizeX a \<and> sizeY a' = sizeY a \<and>
   cells a' = (cells a)(i := (cells a i)(j := v))"
  by (auto simp: aset_def split: if_splits)

lemma writesOnly_refl: "writesOnly vis vis allowed"
  by (simp add: writesOnly_def)

lemma writesOnly_trans:
  "writesOnly a b allowed \<Longrightarrow> writesOnly b c allowed \<Longrightarrow> writesOnly a c allowed"
  unfolding writesOnly_def by metis

lemma writesOnly_mono:
  "writesOnly a b allowed \<Longrightarrow> (\<And>i j. allowed i j \<Longrightarrow> allowed' i j) \<Longrightarrow> writesOnly a b allowed'"
  unfolding writesOnly_def by metis

lemma writesOnly_aset:
  "aset a i j 1 = Inr a' \<Longrightarrow> allowed i j \<Longrightarrow> writesOnly a a' allowed"
proof -
  assume a: "aset a i j 1 = Inr a'" and al: "allowed i j"
  note r = aset_Inr [OF a]
  have "cells a' i' j' = cells a i' j' \<or> cells a' i' j' = 1 \<and> allowed i' j'" for i' j'
    using r al by (cases "i' = i \<and> j' = j") auto
  with r show ?thesis by (simp add: writesOnly_def)
qed


lemma efold_error:
  assumes "P s"
    and "\<And>x s. x \<in> set xs \<Longrightarrow> P s \<Longrightarrow>
           (\<exists>t. f x s = Inr t \<and> P t) \<or> (\<exists>e. f x s = Inl e \<and> Q e)"
  shows "(\<exists>s'. efold f xs s = Inr s' \<and> P s') \<or> (\<exists>e. efold f xs s = Inl e \<and> Q e)"
  using assms
proof (induction xs arbitrary: s)
  case Nil
  then show ?case by simp
next
  case (Cons x xs)
  from Cons.prems(2) [OF _ Cons.prems(1), of x]
  consider t where "f x s = Inr t" "P t" | e where "f x s = Inl e" "Q e"
    by auto
  then show ?case
  proof cases
    case 1
    have "(\<exists>s'. efold f xs t = Inr s' \<and> P s') \<or> (\<exists>e. efold f xs t = Inl e \<and> Q e)"
    proof (rule Cons.IH [OF 1(2)])
      fix y u assume "y \<in> set xs" "P u"
      with Cons.prems(2) [of y u]
      show "(\<exists>t. f y u = Inr t \<and> P t) \<or> (\<exists>e. f y u = Inl e \<and> Q e)" by simp
    qed
    with 1 show ?thesis by simp
  next
    case 2
    then show ?thesis by simp
  qed
qed

lemma vz_vdiv_sum:
  "vz (vdiv (vadd (vadd v1 v2) v3) 3) = (vz v1 + vz v2 + vz v3) / 3"
  by (cases v1, cases v2, cases v3) simp

lemma barycenter_range:
  assumes inv: "meshInvariant mesh" and f: "f < getNumberFaces mesh"
  shows "\<exists>cb. barycenter mesh f = Inr cb \<and> bbMinZ mesh \<le> vz cb \<and> vz cb \<le> bbMaxZ mesh"
proof -
  obtain a b c where face: "faces mesh ! f = (a, b, c)" by (cases "faces mesh ! f")
  from f have fl: "f < length (faces mesh)" by (simp add: getNumberFaces_def)
  then have mem: "faces mesh ! f \<in> set (faces mesh)" by simp
  from inv mem face have abc: "a < length (vertices mesh)" "b < length (vertices mesh)"
    "c < length (vertices mesh)"
    by (auto simp: meshInvariant_def list_all_iff)
  from inv have box: "\<And>v. v \<in> set (vertices mesh) \<Longrightarrow> bbMinZ mesh \<le> vz v \<and> vz v \<le> bbMaxZ mesh"
    by (auto simp: meshInvariant_def list_all_iff)
  from abc have "vertices mesh ! a \<in> set (vertices mesh)" "vertices mesh ! b \<in> set (vertices mesh)"
    "vertices mesh ! c \<in> set (vertices mesh)" by simp_all
  from this [THEN box]
  have "bbMinZ mesh \<le> (vz (vertices mesh ! a) + vz (vertices mesh ! b) + vz (vertices mesh ! c)) / 3"
       "(vz (vertices mesh ! a) + vz (vertices mesh ! b) + vz (vertices mesh ! c)) / 3 \<le> bbMaxZ mesh"
    by simp_all
  moreover from fl face abc have "barycenter mesh f =
      Inr (vdiv (vadd (vadd (vertices mesh ! a) (vertices mesh ! b)) (vertices mesh ! c)) 3)"
    by (simp add: barycenter_def getFace_def getVertex_def idx_def)
  ultimately show ?thesis by (simp add: vz_vdiv_sum)
qed

lemma getFaceNormal_inv:
  "meshInvariant mesh \<Longrightarrow> f < getNumberFaces mesh \<Longrightarrow>
   getFaceNormal mesh f = Inr (faceNormals mesh ! f)"
  by (simp add: meshInvariant_def getFaceNormal_def idx_def getNumberFaces_def)

lemma getFaceNormal_Inr:
  "getFaceNormal mesh f = Inr n \<Longrightarrow> n = faceNormals mesh ! f"
  by (simp add: getFaceNormal_def idx_def split: if_splits)

lemma selectStep_result:
  assumes "selectStep mesh opp limit f (a, F, b, G) = Inr (a', F', b', G')"
  shows "\<exists>cb. barycenter mesh f = Inr cb \<and>
           (a', F') = (if vz cb > a \<and> heightfieldOk mesh zDirMax limit f then (vz cb, int f)
                       else (a, F)) \<and>
           (b', G') = (if opp \<and> vz cb < b \<and> heightfieldOk mesh zDirMin limit f then (vz cb, int f)
                       else (b, G))"
proof -
  from assms obtain cb where cb: "barycenter mesh f = Inr cb"
    by (auto simp: selectStep_def ebind_Inr_iff)
  from assms cb have
    "(a', F') = (if vz cb > a \<and> heightfieldOk mesh zDirMax limit f then (vz cb, int f) else (a, F))"
    by (auto simp: selectStep_def ebind_Inr_iff heightfieldOk_def split: if_splits
          dest!: getFaceNormal_Inr)
  moreover from assms cb have
    "(b', G') = (if opp \<and> vz cb < b \<and> heightfieldOk mesh zDirMin limit f then (vz cb, int f)
                 else (b, G))"
    by (auto simp: selectStep_def ebind_Inr_iff heightfieldOk_def split: if_splits
          dest!: getFaceNormal_Inr)
  ultimately show ?thesis using cb by blast
qed

lemma selectStep_total:
  assumes "meshInvariant mesh" and "f < getNumberFaces mesh"
  shows "\<exists>st'. selectStep mesh opp limit f st = Inr st'"
proof -
  from barycenter_range [OF assms] obtain cb where "barycenter mesh f = Inr cb" by blast
  then show ?thesis
    by (cases st) (simp add: selectStep_def getFaceNormal_inv [OF assms])
qed

lemma select_fold_chosen:
  "efold (selectStep mesh opp limit) fs (a, F, b, G) = Inr (a', F', b', G') \<Longrightarrow>
   (F' = F \<or> (\<exists>f \<in> set fs. F' = int f \<and> heightfieldOk mesh zDirMax limit f)) \<and>
   (G' = G \<or> (\<exists>f \<in> set fs. G' = int f \<and> heightfieldOk mesh zDirMin limit f))"
proof (induction fs arbitrary: a F b G)
  case Nil
  then show ?case by simp
next
  case (Cons f fs)
  from Cons.prems obtain a1 F1 b1 G1 where
    step: "selectStep mesh opp limit f (a, F, b, G) = Inr (a1, F1, b1, G1)" and
    rest: "efold (selectStep mesh opp limit) fs (a1, F1, b1, G1) = Inr (a', F', b', G')"
    by (auto simp: ebind_Inr_iff)
  from selectStep_result [OF step] have
    "F1 = F \<or> F1 = int f \<and> heightfieldOk mesh zDirMax limit f"
    "G1 = G \<or> G1 = int f \<and> heightfieldOk mesh zDirMin limit f"
    by (auto split: if_splits)
  with Cons.IH [OF rest] show ?case by auto
qed

lemma select_fold_none:
  assumes "efold (selectStep mesh opp limit) fs (a, F, b, G) = Inr (a', F', b', G')"
    and "\<forall>f \<in> set fs. \<forall>cb. barycenter mesh f = Inr cb \<longrightarrow> lo < vz cb \<and> vz cb < hi"
    and "F = - 1 \<longrightarrow> a \<le> lo" and "G = - 1 \<longrightarrow> hi \<le> b"
  shows "(F' = - 1 \<longleftrightarrow> F = - 1 \<and> (\<forall>f \<in> set fs. \<not> heightfieldOk mesh zDirMax limit f)) \<and>
         (opp \<longrightarrow> (G' = - 1 \<longleftrightarrow> G = - 1 \<and> (\<forall>f \<in> set fs. \<not> heightfieldOk mesh zDirMin limit f)))"
  using assms
proof (induction fs arbitrary: a F b G)
  case Nil
  then show ?case by simp
next
  case (Cons f fs)
  from Cons.prems(1) obtain a1 F1 b1 G1 where
    step: "selectStep mesh opp limit f (a, F, b, G) = Inr (a1, F1, b1, G1)" and
    rest: "efold (selectStep mesh opp limit) fs (a1, F1, b1, G1) = Inr (a', F', b', G')"
    by (auto simp: ebind_Inr_iff)
  from selectStep_result [OF step] obtain cb where cb: "barycenter mesh f = Inr cb" and
    mx: "(a1, F1) = (if vz cb > a \<and> heightfieldOk mesh zDirMax limit f then (vz cb, int f)
                     else (a, F))" and
    mn: "(b1, G1) = (if opp \<and> vz cb < b \<and> heightfieldOk mesh zDirMin limit f then (vz cb, int f)
                     else (b, G))"
    by blast
  have "f \<in> set (f # fs)" by simp
  with Cons.prems(2) cb have rng: "lo < vz cb" "vz cb < hi" by blast+
  have F1: "F1 = - 1 \<longleftrightarrow> F = - 1 \<and> \<not> heightfieldOk mesh zDirMax limit f"
    using mx rng Cons.prems(3) by (auto split: if_splits)
  have G1: "opp \<Longrightarrow> G1 = - 1 \<longleftrightarrow> G = - 1 \<and> \<not> heightfieldOk mesh zDirMin limit f"
    using mn rng Cons.prems(4) by (auto split: if_splits)
  have a1: "F1 = - 1 \<longrightarrow> a1 \<le> lo"
    using mx Cons.prems(3) by (auto split: if_splits)
  have b1: "G1 = - 1 \<longrightarrow> hi \<le> b1"
    using mn Cons.prems(4) by (auto split: if_splits)
  from Cons.prems(2) have rest_rng:
    "\<forall>f \<in> set fs. \<forall>cb. barycenter mesh f = Inr cb \<longrightarrow> lo < vz cb \<and> vz cb < hi"
    by simp
  from Cons.IH [OF rest rest_rng a1 b1] F1 G1 show ?case by auto
qed

lemma selectFaces_total:
  assumes inv: "meshInvariant mesh" and hit: "\<forall>f \<in> set hit. f < getNumberFaces mesh"
  shows "\<exists>st. selectFaces mesh opp limit hit = Inr st"
proof -
  have "\<exists>s'. efold (selectStep mesh opp limit) hit (bbMinZ mesh - 1, - 1, bbMaxZ mesh + 1, - 1)
          = Inr s' \<and> True"
  proof (rule efold_total)
    fix x s assume "x \<in> set hit"
    with hit have "x < getNumberFaces mesh" by simp
    from selectStep_total [OF inv this, of opp limit s]
    show "\<exists>t. selectStep mesh opp limit x s = Inr t \<and> True" by simp
  qed simp
  then show ?thesis by (simp add: selectFaces_def)
qed

lemma selectFaces_minus_one:
  assumes inv: "meshInvariant mesh" and hit: "\<forall>f \<in> set hit. f < getNumberFaces mesh"
    and sel: "selectFaces mesh opp limit hit = Inr (a, F, b, G)"
  shows "(F = - 1 \<longleftrightarrow> \<not> (\<exists>f \<in> set hit. heightfieldOk mesh zDirMax limit f)) \<and>
         (opp \<longrightarrow> (G = - 1 \<longleftrightarrow> \<not> (\<exists>f \<in> set hit. heightfieldOk mesh zDirMin limit f)))"
proof -
  have rng: "\<forall>f \<in> set hit. \<forall>cb. barycenter mesh f = Inr cb \<longrightarrow>
               bbMinZ mesh - 1 < vz cb \<and> vz cb < bbMaxZ mesh + 1"
  proof (intro ballI allI impI)
    fix f cb assume "f \<in> set hit" "barycenter mesh f = Inr cb"
    with hit barycenter_range [OF inv, of f]
    have "bbMinZ mesh \<le> vz cb \<and> vz cb \<le> bbMaxZ mesh" by fastforce
    then show "bbMinZ mesh - 1 < vz cb \<and> vz cb < bbMaxZ mesh + 1" by simp
  qed
  from sel have
    "efold (selectStep mesh opp limit) hit (bbMinZ mesh - 1, - 1, bbMaxZ mesh + 1, - 1) =
       Inr (a, F, b, G)"
    by (simp add: selectFaces_def)
  from select_fold_none [OF this rng] show ?thesis by simp
qed

lemma selectFaces_chosen:
  assumes "selectFaces mesh opp limit hit = Inr (a, F, b, G)"
  shows "(F = - 1 \<or> (\<exists>f \<in> set hit. F = int f \<and> heightfieldOk mesh zDirMax limit f)) \<and>
         (G = - 1 \<or> (\<exists>f \<in> set hit. G = int f \<and> heightfieldOk mesh zDirMin limit f))"
  using select_fold_chosen [OF assms [unfolded selectFaces_def Let_def]] .

lemma setVisible_Inr:
  "setVisible vis i F = Inr vis' \<Longrightarrow> 0 \<le> F \<and> aset vis i (nat F) 1 = Inr vis'"
  by (simp add: setVisible_def split: if_splits)

lemma rayShootFace_writes:
  assumes "rayShootFace lib asserts mesh di oi limit faceIndex vis = Inr vis'"
  shows "writesOnly vis vis' (rayAllowed mesh di oi limit)"
proof -
  from assms obtain hit a F b G vis1 where
    sel: "selectFaces mesh (0 \<le> oi) limit hit = Inr (a, F, b, G)" and
    w1: "setVisible vis di F = Inr vis1" and
    w2: "(if 0 \<le> oi then setVisible vis1 (nat oi) G else Inr vis1) = Inr vis'"
    by (auto simp: rayShootFace_def ebind_Inr_iff split: if_splits)
  note ch = selectFaces_chosen [OF sel]
  from setVisible_Inr [OF w1] ch have
    f1: "aset vis di (nat F) 1 = Inr vis1" and f2: "heightfieldOk mesh zDirMax limit (nat F)"
    by auto
  from f2 have "rayAllowed mesh di oi limit di (nat F)" by (simp add: rayAllowed_def)
  with f1 have s1: "writesOnly vis vis1 (rayAllowed mesh di oi limit)"
    by (rule writesOnly_aset)
  have s2: "writesOnly vis1 vis' (rayAllowed mesh di oi limit)"
  proof (cases "0 \<le> oi")
    case True
    with w2 have "setVisible vis1 (nat oi) G = Inr vis'" by simp
    from setVisible_Inr [OF this] ch have
      g1: "aset vis1 (nat oi) (nat G) 1 = Inr vis'" and
      g2: "heightfieldOk mesh zDirMin limit (nat G)"
      by auto
    from g2 True have "rayAllowed mesh di oi limit (nat oi) (nat G)"
      by (simp add: rayAllowed_def)
    with g1 show ?thesis by (rule writesOnly_aset)
  next
    case False
    with w2 show ?thesis by (simp add: writesOnly_refl)
  qed
  from s1 s2 show ?thesis by (rule writesOnly_trans)
qed

lemma barIntersection_Inr:
  assumes "meshInvariant mesh" and "faceIndex < getNumberFaces mesh"
  shows "\<exists>hit. barIntersection lib mesh faceIndex = Inr hit"
proof -
  from barycenter_range [OF assms] obtain cb where "barycenter mesh faceIndex = Inr cb"
    by blast
  then show ?thesis by (cases cb) (simp add: barIntersection_def)
qed

lemma rayShootFace_total:
  assumes inv: "meshInvariant mesh"
    and bi: "barIntersection lib mesh faceIndex = Inr hit"
    and hit: "\<forall>f \<in> set hit. f < getNumberFaces mesh"
    and sz: "di < sizeX vis" "oi < int (sizeX vis)" "sizeY vis = getNumberFaces mesh"
    and qmax: "\<exists>f \<in> set hit. heightfieldOk mesh zDirMax limit f"
    and qmin: "0 \<le> oi \<longrightarrow> (\<exists>f \<in> set hit. heightfieldOk mesh zDirMin limit f)"
  shows "(\<exists>vis'. rayShootFace lib asserts mesh di oi limit faceIndex vis = Inr vis' \<and>
                 sizeX vis' = sizeX vis \<and> sizeY vis' = sizeY vis) \<or>
         rayShootFace lib asserts mesh di oi limit faceIndex vis = Inl AssertionFailed \<and> asserts"
proof (cases "asserts \<and> length hit < 2")
  case True
  with bi show ?thesis by (simp add: rayShootFace_def)
next
  case False
  from selectFaces_total [OF inv hit, of "0 \<le> oi" limit] obtain a F b G where
    sel: "selectFaces mesh (0 \<le> oi) limit hit = Inr (a, F, b, G)"
    by (metis prod_cases4)
  note m1 = selectFaces_minus_one [OF inv hit sel]
  note ch = selectFaces_chosen [OF sel]
  from m1 qmax have "F \<noteq> - 1" by simp
  with ch obtain f where f: "f \<in> set hit" "F = int f" "heightfieldOk mesh zDirMax limit f"
    by auto
  with hit sz have w1: "setVisible vis di F = Inr (vis\<lparr>cells := (cells vis)(di := (cells vis di)(f := 1))\<rparr>)"
    by (simp add: setVisible_def aset_def)
  let ?vis1 = "vis\<lparr>cells := (cells vis)(di := (cells vis di)(f := 1))\<rparr>"
  from f hit inv have a1: "assertVisible mesh zDirMax limit F = Inr ()"
    by (simp add: assertVisible_def getFaceNormal_inv heightfieldOk_def)
  show ?thesis
  proof (cases "0 \<le> oi")
    case opp: False
    with False bi sel w1 a1 show ?thesis
      by (simp add: rayShootFace_def)
  next
    case opp: True
    with m1 qmin have "G \<noteq> - 1" by simp
    with ch obtain g where g: "g \<in> set hit" "G = int g" "heightfieldOk mesh zDirMin limit g"
      by auto
    with hit sz opp have w2: "setVisible ?vis1 (nat oi) G =
        Inr (?vis1\<lparr>cells := (cells ?vis1)(nat oi := (cells ?vis1 (nat oi))(g := 1))\<rparr>)"
      by (simp add: setVisible_def aset_def)
    from g hit inv have a2: "assertVisible mesh zDirMin limit G = Inr ()"
      by (simp add: assertVisible_def getFaceNormal_inv heightfieldOk_def)
    from False bi sel w1 w2 a1 a2 opp show ?thesis
      by (simp add: rayShootFace_def)
  qed
qed

lemma rayShootFace_negative:
  assumes inv: "meshInvariant mesh"
    and bi: "barIntersection lib mesh faceIndex = Inr hit"
    and hit: "\<forall>f \<in> set hit. f < getNumberFaces mesh"
    and none: "\<not> (\<exists>f \<in> set hit. heightfieldOk mesh zDirMax limit f) \<or>
               0 \<le> oi \<and> \<not> (\<exists>f \<in> set hit. heightfieldOk mesh zDirMin limit f)"
  shows "\<exists>e. rayShootFace lib asserts mesh di oi limit faceIndex vis = Inl e"
proof -
  from selectFaces_total [OF inv hit, of "0 \<le> oi" limit] obtain a F b G where
    sel: "selectFaces mesh (0 \<le> oi) limit hit = Inr (a, F, b, G)"
    by (metis prod_cases4)
  note m1 = selectFaces_minus_one [OF inv hit sel]
  show ?thesis
  proof (cases "asserts \<and> length hit < 2")
    case True
    with bi show ?thesis by (simp add: rayShootFace_def)
  next
    case False
    show ?thesis
    proof (cases "setVisible vis di F")
      case (Inl e)
      with False bi sel show ?thesis by (simp add: rayShootFace_def)
    next
      case (Inr vis1)
      then have "F \<noteq> - 1" by (auto simp: setVisible_def split: if_splits)
      with m1 none have opp: "0 \<le> oi" and "G = - 1" by auto
      then have "setVisible vis1 (nat oi) G = Inl OutOfBounds"
        by (simp add: setVisible_def)
      with False bi sel Inr opp show ?thesis by (simp add: rayShootFace_def)
    qed
  qed
qed

lemma efold_fails:
  assumes "x \<in> set xs" and "\<And>s. \<exists>e. f x s = Inl e"
  shows "\<exists>e. efold f xs s = Inl e"
  using assms(1)
proof (induction xs arbitrary: s)
  case Nil
  then show ?case by simp
next
  case (Cons y ys)
  show ?case
  proof (cases "f y s")
    case (Inl e)
    then show ?thesis by simp
  next
    case (Inr t)
    show ?thesis
    proof (cases "x = y")
      case True
      with assms(2) [of s] Inr show ?thesis by simp
    next
      case False
      with Cons.prems have "x \<in> set ys" by simp
      from Cons.IH [OF this, of t] Inr show ?thesis by simp
    qed
  qed
qed

text \<open>
  Claim C10. On a mesh that satisfies its invariant, with rays that intersect faces of
  the mesh and a visibility that has the two rows and a column a face: for every face,
  the selection on its ray returns, and \<open>maxZFace\<close> is \<open>-1\<close> exactly when no intersected face
  passes the heightfield test from \<open>+z\<close>, \<open>minZFace\<close> (when the opposite direction is
  checked) exactly when none passes it from \<open>-z\<close>. When every ray has a face passing
  each test, the check ends without an out-of-bounds access, and it returns in a build
  without assertions; when some ray has none, the check does not return.
\<close>

theorem rayShooting_negative_index:
  assumes inv: "meshInvariant mesh"
    and fs: "\<forall>faceIndex \<in> set fs. faceIndex < getNumberFaces mesh"
    and hits: "\<forall>faceIndex \<in> set fs. \<forall>hit. barIntersection lib mesh faceIndex = Inr hit \<longrightarrow>
                 (\<forall>f \<in> set hit. f < getNumberFaces mesh)"
    and sz: "directionIndex < sizeX vis" "oppositeDirectionIndex < int (sizeX vis)"
            "sizeY vis = getNumberFaces mesh"
  shows "(\<forall>faceIndex \<in> set fs. \<exists>hit a F b G.
            barIntersection lib mesh faceIndex = Inr hit \<and>
            selectFaces mesh (0 \<le> oppositeDirectionIndex) (cos heightfieldAngle) hit =
              Inr (a, F, b, G) \<and>
            (F = - 1 \<longleftrightarrow>
               \<not> (\<exists>f \<in> set hit. heightfieldOk mesh zDirMax (cos heightfieldAngle) f)) \<and>
            (0 \<le> oppositeDirectionIndex \<longrightarrow>
               (G = - 1 \<longleftrightarrow>
                  \<not> (\<exists>f \<in> set hit. heightfieldOk mesh zDirMin (cos heightfieldAngle) f)))) \<and>
         ((\<forall>faceIndex \<in> set fs. \<forall>hit. barIntersection lib mesh faceIndex = Inr hit \<longrightarrow>
              (\<exists>f \<in> set hit. heightfieldOk mesh zDirMax (cos heightfieldAngle) f) \<and>
              (0 \<le> oppositeDirectionIndex \<longrightarrow>
                 (\<exists>f \<in> set hit. heightfieldOk mesh zDirMin (cos heightfieldAngle) f)))
          \<longrightarrow> getVisibilityRayShootingOnZ lib asserts mesh fs directionIndex
                oppositeDirectionIndex vis heightfieldAngle \<noteq> Inl OutOfBounds \<and>
              (\<not> asserts \<longrightarrow>
                 (\<exists>vis'. getVisibilityRayShootingOnZ lib asserts mesh fs directionIndex
                           oppositeDirectionIndex vis heightfieldAngle = Inr vis'))) \<and>
         ((\<exists>faceIndex \<in> set fs. \<exists>hit. barIntersection lib mesh faceIndex = Inr hit \<and>
              (\<not> (\<exists>f \<in> set hit. heightfieldOk mesh zDirMax (cos heightfieldAngle) f) \<or>
               0 \<le> oppositeDirectionIndex \<and>
               \<not> (\<exists>f \<in> set hit. heightfieldOk mesh zDirMin (cos heightfieldAngle) f)))
          \<longrightarrow> (\<exists>e. getVisibilityRayShootingOnZ lib asserts mesh fs directionIndex
                     oppositeDirectionIndex vis heightfieldAngle = Inl e))"
proof (intro conjI ballI impI)
  fix faceIndex assume mem: "faceIndex \<in> set fs"
  with fs have lt: "faceIndex < getNumberFaces mesh" by simp
  from barIntersection_Inr [OF inv lt] obtain hit where
    bi: "barIntersection lib mesh faceIndex = Inr hit" by blast
  with hits mem have valid: "\<forall>f \<in> set hit. f < getNumberFaces mesh" by blast
  from selectFaces_total [OF inv valid, of "0 \<le> oppositeDirectionIndex" "cos heightfieldAngle"]
  obtain a F b G where
    sel: "selectFaces mesh (0 \<le> oppositeDirectionIndex) (cos heightfieldAngle) hit =
            Inr (a, F, b, G)"
    by (metis prod_cases4)
  from selectFaces_minus_one [OF inv valid sel] bi sel
  show "\<exists>hit a F b G.
          barIntersection lib mesh faceIndex = Inr hit \<and>
          selectFaces mesh (0 \<le> oppositeDirectionIndex) (cos heightfieldAngle) hit =
            Inr (a, F, b, G) \<and>
          (F = - 1 \<longleftrightarrow>
             \<not> (\<exists>f \<in> set hit. heightfieldOk mesh zDirMax (cos heightfieldAngle) f)) \<and>
          (0 \<le> oppositeDirectionIndex \<longrightarrow>
             (G = - 1 \<longleftrightarrow>
                \<not> (\<exists>f \<in> set hit. heightfieldOk mesh zDirMin (cos heightfieldAngle) f)))"
    by blast
next
  let ?run = "getVisibilityRayShootingOnZ lib asserts mesh fs directionIndex
                oppositeDirectionIndex vis heightfieldAngle"
  let ?P = "\<lambda>v :: array2d. sizeX v = sizeX vis \<and> sizeY v = sizeY vis"
  assume pre: "\<forall>faceIndex \<in> set fs. \<forall>hit. barIntersection lib mesh faceIndex = Inr hit \<longrightarrow>
              (\<exists>f \<in> set hit. heightfieldOk mesh zDirMax (cos heightfieldAngle) f) \<and>
              (0 \<le> oppositeDirectionIndex \<longrightarrow>
                 (\<exists>f \<in> set hit. heightfieldOk mesh zDirMin (cos heightfieldAngle) f))"
  have res: "(\<exists>s'. ?run = Inr s' \<and> ?P s') \<or>
        (\<exists>e. ?run = Inl e \<and> (e = AssertionFailed \<and> asserts))"
    unfolding getVisibilityRayShootingOnZ_def
  proof (rule efold_error)
    show "?P vis" by simp
  next
    fix x and s :: array2d assume x: "x \<in> set fs" and s: "?P s"
    with fs have lt: "x < getNumberFaces mesh" by simp
    from barIntersection_Inr [OF inv lt] obtain hit where
      bi: "barIntersection lib mesh x = Inr hit" by blast
    with hits x have valid: "\<forall>f \<in> set hit. f < getNumberFaces mesh" by blast
    from pre x bi have q: "\<exists>f \<in> set hit. heightfieldOk mesh zDirMax (cos heightfieldAngle) f"
      "0 \<le> oppositeDirectionIndex \<longrightarrow>
         (\<exists>f \<in> set hit. heightfieldOk mesh zDirMin (cos heightfieldAngle) f)"
      by blast+
    from s sz have sz': "directionIndex < sizeX s" "oppositeDirectionIndex < int (sizeX s)"
      "sizeY s = getNumberFaces mesh" by simp_all
    from rayShootFace_total [OF inv bi valid sz' q, of asserts] s
    show "(\<exists>t. rayShootFace lib asserts mesh directionIndex oppositeDirectionIndex
                 (cos heightfieldAngle) x s = Inr t \<and> ?P t) \<or>
          (\<exists>e. rayShootFace lib asserts mesh directionIndex oppositeDirectionIndex
                 (cos heightfieldAngle) x s = Inl e \<and> (e = AssertionFailed \<and> asserts))"
      by auto
  qed
  from res show "?run \<noteq> Inl OutOfBounds" by auto
  from res show "\<exists>vis'. ?run = Inr vis'" if "\<not> asserts" using that by auto
next
  assume "\<exists>faceIndex \<in> set fs. \<exists>hit. barIntersection lib mesh faceIndex = Inr hit \<and>
              (\<not> (\<exists>f \<in> set hit. heightfieldOk mesh zDirMax (cos heightfieldAngle) f) \<or>
               0 \<le> oppositeDirectionIndex \<and>
               \<not> (\<exists>f \<in> set hit. heightfieldOk mesh zDirMin (cos heightfieldAngle) f))"
  then obtain faceIndex hit where mem: "faceIndex \<in> set fs" and
    bi: "barIntersection lib mesh faceIndex = Inr hit" and
    none: "\<not> (\<exists>f \<in> set hit. heightfieldOk mesh zDirMax (cos heightfieldAngle) f) \<or>
           0 \<le> oppositeDirectionIndex \<and>
           \<not> (\<exists>f \<in> set hit. heightfieldOk mesh zDirMin (cos heightfieldAngle) f)"
    by blast
  from hits mem bi have valid: "\<forall>f \<in> set hit. f < getNumberFaces mesh" by blast
  show "\<exists>e. getVisibilityRayShootingOnZ lib asserts mesh fs directionIndex
              oppositeDirectionIndex vis heightfieldAngle = Inl e"
    unfolding getVisibilityRayShootingOnZ_def
  proof (rule efold_fails [OF mem])
    fix s
    from rayShootFace_negative [OF inv bi valid none]
    show "\<exists>e. rayShootFace lib asserts mesh directionIndex oppositeDirectionIndex
                (cos heightfieldAngle) faceIndex s = Inl e" .
  qed
qed

lemma ray_writes:
  assumes "getVisibilityRayShootingOnZ lib asserts mesh fs di oi vis angle = Inr vis'"
  shows "writesOnly vis vis' (rayAllowed mesh di oi (cos angle))"
proof (rule efold_invariant [OF assms [unfolded getVisibilityRayShootingOnZ_def]])
  show "writesOnly vis vis (rayAllowed mesh di oi (cos angle))" by (rule writesOnly_refl)
next
  fix x and s t :: array2d
  assume "writesOnly vis s (rayAllowed mesh di oi (cos angle))"
    and "rayShootFace lib asserts mesh di oi (cos angle) x s = Inr t"
  then show "writesOnly vis t (rayAllowed mesh di oi (cos angle))"
    by (blast intro: writesOnly_trans rayShootFace_writes)
qed

lemma projectFace_writes:
  assumes "projectFace lib mesh di direction angle faceId (tree, v) = Inr (tree', v')"
  shows "writesOnly v v' (\<lambda>i j. i = di \<and> heightfieldOk mesh direction (cos angle) j)"
proof -
  from assms obtain n where n: "getFaceNormal mesh faceId = Inr n"
    by (auto simp: projectFace_def ebind_Inr_iff)
  note nf = getFaceNormal_Inr [OF n]
  show ?thesis
  proof (cases "vdot direction n \<ge> cos angle")
    case False
    with assms n show ?thesis by (simp add: projectFace_def writesOnly_refl)
  next
    case True
    with nf have ok: "heightfieldOk mesh direction (cos angle) faceId"
      by (simp add: heightfieldOk_def)
    from assms n True have "v' = v \<or> aset v di faceId 1 = Inr v'"
      by (auto simp: projectFace_def ebind_Inr_iff Let_def split: if_splits)
    then show ?thesis
    proof
      assume "v' = v"
      then show ?thesis by (simp add: writesOnly_refl)
    next
      assume "aset v di faceId 1 = Inr v'"
      then show ?thesis by (rule writesOnly_aset) (simp add: ok)
    qed
  qed
qed

lemma projectLoop_writes:
  assumes "efold (projectFace lib mesh di direction angle) fs (tree, vis) = Inr (tree', vis')"
  shows "writesOnly vis vis' (\<lambda>i j. i = di \<and> heightfieldOk mesh direction (cos angle) j)"
proof -
  let ?A = "\<lambda>i j. i = di \<and> heightfieldOk mesh direction (cos angle) j"
  have "(\<lambda>st. writesOnly vis (snd st) ?A) (tree', vis')"
  proof (rule efold_invariant [OF assms])
    show "writesOnly vis (snd (tree, vis)) ?A" by (simp add: writesOnly_refl)
  next
    fix x and s t :: "triangle2d list \<times> array2d"
    assume s: "writesOnly vis (snd s) ?A"
      and step: "projectFace lib mesh di direction angle x s = Inr t"
    from projectFace_writes [of lib mesh di direction angle x "fst s" "snd s" "fst t" "snd t"] step
    have "writesOnly (snd s) (snd t) ?A" by simp
    with s show "writesOnly vis (snd t) ?A" by (rule writesOnly_trans)
  qed
  then show ?thesis by simp
qed

lemma projection_writes:
  assumes "getVisibilityProjectionOnZ lib mesh fs di oi vis angle = Inr vis'"
  shows "writesOnly vis vis' (rayAllowed mesh di oi (cos angle))"
proof -
  let ?ord = "sort_key (minZOfFace mesh) fs"
  from assms obtain tmax vis1 where
    l1: "efold (projectFace lib mesh di zDirMax angle) (rev ?ord) ([], vis) = Inr (tmax, vis1)" and
    l2: "(if 0 \<le> oi
          then ebind (efold (projectFace lib mesh (nat oi) zDirMin angle) ?ord ([], vis1))
                 (\<lambda>(aabbTreeMin, vis2). Inr vis2)
          else Inr vis1) = Inr vis'"
    by (auto simp: getVisibilityProjectionOnZ_def Let_def ebind_Inr_iff)
  from projectLoop_writes [OF l1]
  have s1: "writesOnly vis vis1 (rayAllowed mesh di oi (cos angle))"
    by (rule writesOnly_mono) (simp add: rayAllowed_def)
  have s2: "writesOnly vis1 vis' (rayAllowed mesh di oi (cos angle))"
  proof (cases "0 \<le> oi")
    case False
    with l2 show ?thesis by (simp add: writesOnly_refl)
  next
    case True
    with l2 obtain tmin where
      "efold (projectFace lib mesh (nat oi) zDirMin angle) ?ord ([], vis1) = Inr (tmin, vis')"
      by (auto simp: ebind_Inr_iff)
    from projectLoop_writes [OF this] show ?thesis
      by (rule writesOnly_mono) (simp add: rayAllowed_def True)
  qed
  from s1 s2 show ?thesis by (rule writesOnly_trans)
qed

lemma checkOnZ_writes:
  assumes "checkOnZ lib asserts mode mesh fs di oi vis angle = Inr vis'"
  shows "writesOnly vis vis' (rayAllowed mesh di oi (cos angle))"
  using assms ray_writes projection_writes
  by (auto simp: checkOnZ_def split: if_splits)

lemma seedExtremes_cells:
  "seedExtremes index extremes vis = Inr vis' \<Longrightarrow>
   sizeX vis' = sizeX vis \<and> sizeY vis' = sizeY vis \<and>
   cells vis' = (\<lambda>i j. if i = index \<and> j \<in> set extremes then 1 else cells vis i j)"
  unfolding seedExtremes_def
proof (induction extremes arbitrary: vis)
  case Nil
  then show ?case by simp
next
  case (Cons f fs)
  from Cons.prems obtain v1 where s: "aset vis index f 1 = Inr v1" and
    r: "efold (\<lambda>faceId v. aset v index faceId 1) fs v1 = Inr vis'"
    by (auto simp: ebind_Inr_iff)
  note a = aset_Inr [OF s]
  from Cons.IH [OF r] a show ?case by (auto simp: fun_eq_iff)
qed

lemma directionLoop:
  assumes "efold (directionStep lib asserts mode tf h (pi / real h) angle) [0..<k]
             (mesh, dir0, dirs0, vis0) = Inr (rm, dir, dirs, vis)"
    and "k \<le> h"
  shows "rm = rotatedBy lib h mesh k \<and>
         writesOnly vis0 vis (rotationalOk lib mesh h (cos angle) k)"
  using assms
proof (induction k arbitrary: rm dir dirs vis)
  case 0
  then show ?case by (simp add: rotatedBy_def writesOnly_refl)
next
  case (Suc k)
  from Suc.prems(1) obtain rm1 dir1 dirs1 vis1 where
    pre: "efold (directionStep lib asserts mode tf h (pi / real h) angle) [0..<k]
            (mesh, dir0, dirs0, vis0) = Inr (rm1, dir1, dirs1, vis1)" and
    step: "directionStep lib asserts mode tf h (pi / real h) angle k (rm1, dir1, dirs1, vis1) =
             Inr (rm, dir, dirs, vis)"
    by (auto simp: efold_append ebind_Inr_iff)
  from Suc.prems(2) have kh: "k \<le> h" "k < h" by simp_all
  from Suc.IH [OF pre kh(1)] have rm1: "rm1 = rotatedBy lib h mesh k" and
    w1: "writesOnly vis0 vis1 (rotationalOk lib mesh h (cos angle) k)" by simp_all
  from step have chk: "checkOnZ lib asserts mode rm1 tf k (int (h + k)) vis1 angle = Inr vis"
    and rm: "rm = rotateMesh lib xAxis (- (pi / real h)) rm1"
    by (auto simp: directionStep_def ebind_Inr_iff)
  from rm rm1 have r: "rm = rotatedBy lib h mesh (Suc k)" by (simp add: rotatedBy_def)
  have a: "writesOnly vis0 vis1 (rotationalOk lib mesh h (cos angle) (Suc k))"
    using w1 by (rule writesOnly_mono) (auto simp: rotationalOk_def)
  have opp: "nat (int (h + k)) = h + k" by simp
  have b: "writesOnly vis1 vis (rotationalOk lib mesh h (cos angle) (Suc k))"
    using checkOnZ_writes [OF chk]
  proof (rule writesOnly_mono)
    fix i j assume "rayAllowed rm1 k (int (h + k)) (cos angle) i j"
    then consider "i = k" "heightfieldOk rm1 zDirMax (cos angle) j"
      | "i = h + k" "heightfieldOk rm1 zDirMin (cos angle) j"
      unfolding rayAllowed_def opp by blast
    then show "rotationalOk lib mesh h (cos angle) (Suc k) i j"
    proof cases
      case 1
      then show ?thesis by (simp add: rotationalOk_def rm1)
    next
      case 2
      then show ?thesis by (simp add: rotationalOk_def rm1)
    qed
  qed
  from r a b show ?case by (blast intro: writesOnly_trans)
qed

text \<open>
  Claim C1, as amended. In the visibility of a check that returns, an entry that is 1
  stands in the row of a rotational direction or of its opposite and the stored normal
  of the face, in the mesh as rotated when that row was computed, passes the heightfield
  test against \<open>+z\<close> or \<open>-z\<close>; or it stands in the row of an extreme direction, where
  with \<open>includeXDirections\<close> the same holds on the mesh rotated about the y axis, and
  without it the face is one of the given extreme faces. Without \<open>includeXDirections\<close>
  the rows of the extreme directions are 1 at exactly the given extreme faces, whatever
  their normals; no occlusion test is part of the statement.
\<close>

theorem visible_entries:
  assumes run: "computeVisibilityProjectionRay lib asserts mesh nDirections heightfieldAngle
                  includeXDirections minE maxE mode = Inr (dirs, angs, vis)"
  shows "sizeX vis = nDirections div 2 * 2 + 2 \<and> sizeY vis = getNumberFaces mesh \<and>
         (\<forall>d f. cells vis d f = 1 \<longrightarrow>
            rotationalOk lib mesh (nDirections div 2) (cos heightfieldAngle)
              (nDirections div 2) d f \<or>
            d = nDirections div 2 * 2 \<and>
              (if includeXDirections
               then heightfieldOk (rotateMesh lib yAxis (pi / 2) mesh) zDirMax
                      (cos heightfieldAngle) f
               else f \<in> set minE) \<or>
            d = nDirections div 2 * 2 + 1 \<and>
              (if includeXDirections
               then heightfieldOk (rotateMesh lib yAxis (pi / 2) mesh) zDirMin
                      (cos heightfieldAngle) f
               else f \<in> set maxE)) \<and>
         (\<not> includeXDirections \<longrightarrow>
            (\<forall>f. cells vis (nDirections div 2 * 2) f = 1 \<longleftrightarrow> f \<in> set minE) \<and>
            (\<forall>f. cells vis (nDirections div 2 * 2 + 1) f = 1 \<longleftrightarrow> f \<in> set maxE))"
proof -
  let ?h = "nDirections div 2"
  let ?vis0 = "newArray2d (?h * 2 + 2) (getNumberFaces mesh)"
  let ?R = "rotationalOk lib mesh ?h (cos heightfieldAngle) ?h"
  from run obtain rm dir dirs0 dirs1 vis1 where
    loop: "efold (directionStep lib asserts mode [0..<getNumberFaces mesh] ?h (pi / real ?h)
                    heightfieldAngle) [0..<?h]
             (mesh, zDirMax, dirs0, newArray2d (Suc (Suc (?h * 2))) (getNumberFaces mesh)) =
           Inr (rm, dir, dirs1, vis1)"
    and last: "(if includeXDirections
                then checkOnZ lib asserts mode (rotateMesh lib yAxis (pi / 2) mesh)
                       [0..<getNumberFaces mesh] (?h * 2) (int (Suc (?h * 2))) vis1 heightfieldAngle
                else ebind (seedExtremes (?h * 2) minE vis1) (seedExtremes (Suc (?h * 2)) maxE))
               = Inr vis"
    by (auto simp: computeVisibilityProjectionRay_def Let_def ebind_Inr_iff)
  have suc: "Suc (Suc (?h * 2)) = ?h * 2 + 2" "Suc (?h * 2) = ?h * 2 + 1" by simp_all
  note loop = loop [unfolded suc] and last = last [unfolded suc]
  from directionLoop [OF loop] have w1: "writesOnly ?vis0 vis1 ?R" by simp
  have zero: "cells ?vis0 d f = 0" for d f by (simp add: newArray2d_def)
  from w1 have sz1: "sizeX vis1 = ?h * 2 + 2" "sizeY vis1 = getNumberFaces mesh"
    by (simp_all add: writesOnly_def newArray2d_def)
  from w1 zero have c1: "cells vis1 d f = 1 \<Longrightarrow> ?R d f" for d f
    unfolding writesOnly_def by (metis zero_neq_one)
  have rows: "?R d f \<Longrightarrow> d < ?h * 2" for d f
    by (auto simp: rotationalOk_def)
  show ?thesis
  proof (cases includeXDirections)
    case True
    with last have "checkOnZ lib asserts mode (rotateMesh lib yAxis (pi / 2) mesh)
        [0..<getNumberFaces mesh] (?h * 2) (int (?h * 2 + 1)) vis1 heightfieldAngle = Inr vis"
      by simp
    from checkOnZ_writes [OF this] have w2: "writesOnly vis1 vis
        (rayAllowed (rotateMesh lib yAxis (pi / 2) mesh) (?h * 2) (int (?h * 2 + 1))
           (cos heightfieldAngle))" .
    have "cells vis d f = 1 \<Longrightarrow>
            ?R d f \<or>
            d = ?h * 2 \<and> heightfieldOk (rotateMesh lib yAxis (pi / 2) mesh) zDirMax
                            (cos heightfieldAngle) f \<or>
            d = ?h * 2 + 1 \<and> heightfieldOk (rotateMesh lib yAxis (pi / 2) mesh) zDirMin
                            (cos heightfieldAngle) f" for d f
    proof -
      assume one: "cells vis d f = 1"
      from w2 have "cells vis d f = cells vis1 d f \<or>
          rayAllowed (rotateMesh lib yAxis (pi / 2) mesh) (?h * 2) (int (?h * 2 + 1))
            (cos heightfieldAngle) d f"
        by (auto simp: writesOnly_def)
      with one c1 [of d f] show ?thesis
        by (auto simp: rayAllowed_def)
    qed
    with True w2 sz1 show ?thesis by (simp add: writesOnly_def)
  next
    case False
    with last obtain vis2 where
      s1: "seedExtremes (?h * 2) minE vis1 = Inr vis2" and
      s2: "seedExtremes (?h * 2 + 1) maxE vis2 = Inr vis"
      by (auto simp: ebind_Inr_iff)
    note e1 = seedExtremes_cells [OF s1] and e2 = seedExtremes_cells [OF s2]
    from e1 e2 have cells: "cells vis = (\<lambda>i j. if i = ?h * 2 + 1 \<and> j \<in> set maxE then 1
        else if i = ?h * 2 \<and> j \<in> set minE then 1 else cells vis1 i j)"
      by (auto simp: fun_eq_iff)
    have no_min: "cells vis1 (?h * 2) f \<noteq> 1" for f
      using c1 [of "?h * 2" f] rows [of "?h * 2" f] by auto
    have no_max: "cells vis1 (?h * 2 + 1) f \<noteq> 1" for f
      using c1 [of "?h * 2 + 1" f] rows [of "?h * 2 + 1" f] by auto
    have main: "cells vis d f = 1 \<Longrightarrow>
        ?R d f \<or> d = ?h * 2 \<and> f \<in> set minE \<or> d = ?h * 2 + 1 \<and> f \<in> set maxE" for d f
      using c1 [of d f] by (auto simp: cells split: if_splits)
    have mn: "cells vis (?h * 2) f = 1 \<longleftrightarrow> f \<in> set minE" for f
      using no_min [of f] by (simp add: cells)
    have mx: "cells vis (?h * 2 + 1) f = 1 \<longleftrightarrow> f \<in> set maxE" for f
      using no_max [of f] by (simp add: cells)
    from False main mn mx e1 e2 sz1 show ?thesis by simp
  qed
qed

lemmas vis_defs = computeVisibilityProjectionRay_def directionStep_def checkOnZ_def
  getVisibilityRayShootingOnZ_def rayShootFace_def barIntersection_def selectFaces_def
  selectStep_def setVisible_def assertVisible_def barycenter_def getFaceNormal_def
  getFace_def getVertex_def idx_def aset_def newArray2d_def seedExtremes_def
  getNumberFaces_def zDirMax_def zDirMin_def xAxis_def yAxis_def
  getVisibilityProjectionOnZ_def projectFace_def minZOfFace_def

lemma replicate_2: "replicate 2 x = [x, x]"
  by (simp add: numeral_2_eq_2)

lemma setAngles_2: "setAngles 2 a s = [a, a + s]"
  by (simp add: numeral_2_eq_2)

lemma stack_ray:
  "computeVisibilityProjectionRay stackLib True stackMesh 2 (pi / 3) False [0] [] RAYSHOOTING =
   Inr (stackDirections, [0, pi], stackVisibility)"
  by (simp add: vis_defs stackMesh_def stackLib_def Let_def cos_60 stackVisibility_def
        stackDirections_def replicate_2 setAngles_2)

lemma stack_projection:
  "computeVisibilityProjectionRay stackLib True stackMesh 2 (pi / 3) False [0] [] PROJECTION =
   Inr (stackDirections, [0, pi], stackVisibility)"
  by (simp add: vis_defs stackMesh_def stackLib_def Let_def cos_60 stackVisibility_def
        stackDirections_def replicate_2 setAngles_2 numeral_2_eq_2)

lemma stack_rows: "rowsOf stackVisibility = [[0, 1, 0], [0, 0, 1], [1, 0, 0], [0, 0, 0]]"
  by (simp add: rowsOf_def stackVisibility_def upt_rec)

lemma stack_bar:
  "barIntersection stackLib stackMesh 0 = Inr [0, 1, 2]"
  "barIntersection stackLib stackMesh 1 = Inr [0, 1, 2]"
  "barIntersection stackLib stackMesh 2 = Inr [0, 1, 2]"
  "barycenter stackMesh 1 = Inr (1 / 3, 1 / 3, 1 / 2)"
  "barycenter stackMesh 2 = Inr (1 / 3, 1 / 3, 1)"
  by (simp_all add: vis_defs stackMesh_def stackLib_def)

lemma stack_inv: "meshInvariant stackMesh"
  by (simp add: meshInvariant_def stackMesh_def)

text \<open>
  Claim C1 as stated fails on the stack, for ray shooting and for projection alike.
  The floor is seeded as a min extreme: its entry for the direction \<open>-x\<close> is 1 while its
  normal has the dot product 0 with \<open>-x\<close>, below the cosine \<open>1/2\<close> of the heightfield
  angle. The shelf has the entry 1 for the direction \<open>+z\<close> while the ceiling is on the
  ray of its barycenter, above it: a face that fails the heightfield test is passed
  over, not taken as an occluder.
\<close>

theorem visible_without_test:
  "computeVisibilityProjectionRay stackLib True stackMesh 2 (pi / 3) False [0] [] RAYSHOOTING =
     Inr (stackDirections, [0, pi], stackVisibility) \<and>
   computeVisibilityProjectionRay stackLib True stackMesh 2 (pi / 3) False [0] [] PROJECTION =
     Inr (stackDirections, [0, pi], stackVisibility) \<and>
   rowsOf stackVisibility = [[0, 1, 0], [0, 0, 1], [1, 0, 0], [0, 0, 0]] \<and>
   stackDirections ! 2 = (- 1, 0, 0) \<and>
   vdot (faceNormals stackMesh ! 0) (stackDirections ! 2) = 0 \<and> cos (pi / 3) = 1 / 2 \<and>
   stackDirections ! 0 = (0, 0, 1) \<and>
   barIntersection stackLib stackMesh 1 = Inr [0, 1, 2] \<and>
   barycenter stackMesh 1 = Inr (1 / 3, 1 / 3, 1 / 2) \<and>
   barycenter stackMesh 2 = Inr (1 / 3, 1 / 3, 1)"
proof -
  have d: "stackDirections ! 2 = (- 1, 0, 0)" "stackDirections ! 0 = (0, 0, 1)"
    "vdot (faceNormals stackMesh ! 0) (stackDirections ! 2) = 0"
    by (simp_all add: stackDirections_def stackMesh_def)
  from stack_ray stack_projection stack_rows stack_bar(2,4,5) d cos_60
  show ?thesis by blast
qed

text \<open>
  The amended statement on the ray-shooting check of the stack.
\<close>

theorem visible_entries_witness:
  "computeVisibilityProjectionRay stackLib True stackMesh 2 (pi / 3) False [0] [] RAYSHOOTING =
     Inr (stackDirections, [0, pi], stackVisibility) \<and>
   sizeX stackVisibility = 2 div 2 * 2 + 2 \<and> sizeY stackVisibility = getNumberFaces stackMesh \<and>
   cells stackVisibility 0 1 = 1 \<and>
   rotationalOk stackLib stackMesh (2 div 2) (cos (pi / 3)) (2 div 2) 0 1 \<and>
   cells stackVisibility 2 0 = 1 \<and> 0 \<in> set [0 :: nat]"
proof -
  note t = visible_entries [OF stack_ray]
  have c: "cells stackVisibility 0 1 = 1" "cells stackVisibility 2 0 = 1"
    by (simp_all add: stackVisibility_def)
  from t c(1) have "rotationalOk stackLib stackMesh (2 div 2) (cos (pi / 3)) (2 div 2) 0 1"
    by fastforce
  with t c stack_ray show ?thesis by simp
qed


text \<open>
  On the stack every ray has a face passing each test, and the check has no
  out-of-bounds access. On the single triangle, whose normal is \<open>(0, 0, 1)\<close>, no face
  passes the test from \<open>-z\<close>: \<open>minZFace\<close> stays \<open>-1\<close> and the write is out of bounds.
\<close>

theorem rayShooting_negative_index_witness:
  "meshInvariant stackMesh \<and>
   barIntersection stackLib stackMesh 0 = Inr [0, 1, 2] \<and>
   barIntersection stackLib stackMesh 1 = Inr [0, 1, 2] \<and>
   barIntersection stackLib stackMesh 2 = Inr [0, 1, 2] \<and>
   heightfieldOk stackMesh zDirMax (cos (pi / 3)) 0 \<and>
   heightfieldOk stackMesh zDirMin (cos (pi / 3)) 2 \<and>
   getVisibilityRayShootingOnZ stackLib True stackMesh [0, 1, 2] 0 1 (newArray2d 4 3) (pi / 3)
     \<noteq> Inl OutOfBounds \<and>
   meshInvariant triMesh \<and> barIntersection ceilingLib triMesh 0 = Inr [0] \<and>
   \<not> heightfieldOk triMesh zDirMin (cos (pi / 3)) 0 \<and>
   getVisibilityRayShootingOnZ ceilingLib False triMesh [0] 0 1 (newArray2d 4 1) (pi / 3)
     = Inl OutOfBounds"
proof -
  have ok: "heightfieldOk stackMesh zDirMax (cos (pi / 3)) 0"
           "heightfieldOk stackMesh zDirMin (cos (pi / 3)) 2"
    by (simp_all add: heightfieldOk_def stackMesh_def zDirMax_def zDirMin_def cos_60)
  have n: "getNumberFaces stackMesh = 3" by (simp add: getNumberFaces_def stackMesh_def)
  have fs: "\<forall>faceIndex \<in> set [0, 1, 2]. faceIndex < getNumberFaces stackMesh"
    by (simp add: n)
  have hits: "\<forall>faceIndex \<in> set [0, 1, 2]. \<forall>hit.
      barIntersection stackLib stackMesh faceIndex = Inr hit \<longrightarrow>
      (\<forall>f \<in> set hit. f < getNumberFaces stackMesh)"
    using stack_bar(1-3) by (auto simp: n)
  have sz: "0 < sizeX (newArray2d 4 3)" "1 < int (sizeX (newArray2d 4 3))"
    "sizeY (newArray2d 4 3) = getNumberFaces stackMesh"
    by (simp_all add: newArray2d_def n)
  have pre: "\<forall>faceIndex \<in> set [0, 1, 2]. \<forall>hit.
      barIntersection stackLib stackMesh faceIndex = Inr hit \<longrightarrow>
      (\<exists>f \<in> set hit. heightfieldOk stackMesh zDirMax (cos (pi / 3)) f) \<and>
      (0 \<le> (1 :: int) \<longrightarrow> (\<exists>f \<in> set hit. heightfieldOk stackMesh zDirMin (cos (pi / 3)) f))"
    using stack_bar(1-3) ok by auto
  from rayShooting_negative_index [OF stack_inv fs hits sz, of "pi / 3" True] pre
  have good: "getVisibilityRayShootingOnZ stackLib True stackMesh [0, 1, 2] 0 1 (newArray2d 4 3)
                (pi / 3) \<noteq> Inl OutOfBounds"
    by blast
  have tinv: "meshInvariant triMesh" by (simp add: meshInvariant_def triMesh_def)
  have tbar: "barIntersection ceilingLib triMesh 0 = Inr [0]"
    by (simp add: vis_defs triMesh_def ceilingLib_def stackLib_def)
  have tno: "\<not> heightfieldOk triMesh zDirMin (cos (pi / 3)) 0"
    by (simp add: heightfieldOk_def triMesh_def zDirMin_def cos_60)
  have bad: "getVisibilityRayShootingOnZ ceilingLib False triMesh [0] 0 1 (newArray2d 4 1) (pi / 3)
               = Inl OutOfBounds"
    by (simp add: vis_defs triMesh_def ceilingLib_def stackLib_def cos_60)
  from stack_inv stack_bar(1-3) ok good tinv tbar tno bad show ?thesis by blast
qed

lemma foundVisible_iff:
  "foundVisible vis faceId is \<longleftrightarrow> (\<exists>i \<in> set is. cells vis i faceId = 1)"
  by (induction "is") auto

lemma detectLoop_eq:
  "detectLoop vis fs acc =
   acc @ filter (\<lambda>faceId. \<not> foundVisible vis faceId [0..<sizeX vis]) fs"
  by (induction fs arbitrary: acc) auto

lemma set_detectNonVisibleFaces:
  "set (detectNonVisibleFaces vis old) =
   {f. f < sizeY vis \<and> (\<forall>i < sizeX vis. cells vis i f \<noteq> 1)}"
  by (auto simp: detectNonVisibleFaces_def detectLoop_eq foundVisible_iff)

text \<open>
  Claim C2. When \<open>getVisibility\<close> returns, the visibility of the data is the matrix that
  the check of all directions computed, unchanged by the detector; the non-visible faces
  are exactly the faces with no entry 1 in their column of it; so a face whose entries
  are all 0 is in the non-visible set and its entries are still all 0.
\<close>

theorem nonvisible_faces_detected:
  assumes "getVisibility lib asserts mesh nDirections resolution heightfieldAngle
             includeXDirections d mode = Inr d'"
  shows "\<exists>dirs angs vis.
           computeVisibilityProjectionRay lib asserts mesh nDirections heightfieldAngle
             includeXDirections (minExtremes d) (maxExtremes d) mode = Inr (dirs, angs, vis) \<and>
           visibility d' = vis \<and>
           set (nonVisibleFaces d') =
             {f. f < sizeY vis \<and> (\<forall>i < sizeX vis. cells vis i f \<noteq> 1)} \<and>
           (\<forall>f < sizeY vis. (\<forall>i < sizeX vis. cells vis i f = 0) \<longrightarrow>
              f \<in> set (nonVisibleFaces d') \<and>
              (\<forall>i < sizeX vis. cells (visibility d') i f = 0))"
proof -
  from assms obtain dirs angs vis where
    run: "computeVisibilityProjectionRay lib asserts mesh nDirections heightfieldAngle
            includeXDirections (minExtremes d) (maxExtremes d) mode = Inr (dirs, angs, vis)" and
    d': "d' = (d\<lparr>directions := dirs, angles := angs, visibility := vis\<rparr>)
               \<lparr>nonVisibleFaces := detectNonVisibleFaces vis (nonVisibleFaces d)\<rparr>"
    by (auto simp: getVisibility_def Let_def ebind_Inr_iff split: if_splits)
  from d' have v: "visibility d' = vis" and
    n: "set (nonVisibleFaces d') = {f. f < sizeY vis \<and> (\<forall>i < sizeX vis. cells vis i f \<noteq> 1)}"
    by (simp_all add: set_detectNonVisibleFaces)
  from v n have "\<forall>f < sizeY vis. (\<forall>i < sizeX vis. cells vis i f = 0) \<longrightarrow>
      f \<in> set (nonVisibleFaces d') \<and> (\<forall>i < sizeX vis. cells (visibility d') i f = 0)"
    by auto
  with run v n show ?thesis by blast
qed

lemma shelf_run:
  "getVisibility stackLib True stackMesh 2 0 (pi / 3) False emptyData PROJECTION =
   Inr (emptyData\<lparr>directions := stackDirections, angles := [0, pi],
          visibility := shelfVisibility, nonVisibleFaces := [0]\<rparr>)"
  by (simp add: getVisibility_def vis_defs stackMesh_def stackLib_def Let_def cos_60
        shelfVisibility_def stackDirections_def replicate_2 setAngles_2 numeral_2_eq_2
        emptyData_def detectNonVisibleFaces_def)

text \<open>
  On the stack with no extreme face, the floor is seen from no direction: it is the
  non-visible face, and its column is left at 0.
\<close>

theorem nonvisible_faces_detected_witness:
  "getVisibility stackLib True stackMesh 2 0 (pi / 3) False emptyData PROJECTION =
     Inr (emptyData\<lparr>directions := stackDirections, angles := [0, pi],
            visibility := shelfVisibility, nonVisibleFaces := [0]\<rparr>) \<and>
   computeVisibilityProjectionRay stackLib True stackMesh 2 (pi / 3) False [] [] PROJECTION =
     Inr (stackDirections, [0, pi], shelfVisibility) \<and>
   rowsOf shelfVisibility = [[0, 1, 0], [0, 0, 1], [0, 0, 0], [0, 0, 0]] \<and>
   set [0 :: nat] = {f. f < sizeY shelfVisibility \<and>
                        (\<forall>i < sizeX shelfVisibility. cells shelfVisibility i f \<noteq> 1)}"
proof -
  from nonvisible_faces_detected [OF shelf_run] obtain dirs angs vis where
    run: "computeVisibilityProjectionRay stackLib True stackMesh 2 (pi / 3) False
            (minExtremes emptyData) (maxExtremes emptyData) PROJECTION = Inr (dirs, angs, vis)" and
    v: "visibility (emptyData\<lparr>directions := stackDirections, angles := [0, pi],
            visibility := shelfVisibility, nonVisibleFaces := [0]\<rparr>) = vis" and
    s: "set (nonVisibleFaces (emptyData\<lparr>directions := stackDirections, angles := [0, pi],
            visibility := shelfVisibility, nonVisibleFaces := [0]\<rparr>)) =
        {f. f < sizeY vis \<and> (\<forall>i < sizeX vis. cells vis i f \<noteq> 1)}"
    by blast
  from v have vis: "vis = shelfVisibility" by simp
  have e: "minExtremes emptyData = []" "maxExtremes emptyData = []"
    by (simp_all add: emptyData_def)
  have run': "computeVisibilityProjectionRay stackLib True stackMesh 2 (pi / 3) False [] []
                PROJECTION = Inr (stackDirections, [0, pi], shelfVisibility)"
    by (simp add: vis_defs stackMesh_def stackLib_def Let_def cos_60
        shelfVisibility_def stackDirections_def replicate_2 setAngles_2 numeral_2_eq_2)
  have rows: "rowsOf shelfVisibility = [[0, 1, 0], [0, 0, 1], [0, 0, 0], [0, 0, 0]]"
    by (simp add: rowsOf_def shelfVisibility_def upt_rec)
  from s vis have "set [0 :: nat] = {f. f < sizeY shelfVisibility \<and>
                        (\<forall>i < sizeX shelfVisibility. cells shelfVisibility i f \<noteq> 1)}"
    by simp
  with shelf_run run' rows show ?thesis by blast
qed

text \<open>
  The older \<open>checkVisibilityAllPlanes\<close> does force an entry: a face with no entry 1 is
  given to the last direction.
\<close>

lemma forceLastDirection_forces:
  assumes "forceLastDirection vis [j] = Inr vis'"
    and "\<forall>i < sizeX vis. cells vis i j = 0"
  shows "cells vis' (sizeX vis - 1) j = 1"
  using assms
  by (auto simp: foundVisible_iff ebind_Inr_iff dest!: aset_Inr split: if_splits)

end
